theory Spec2Isabelle
  imports Main
begin

section \<open>Values, exceptions and the data model of \<^verbatim>\<open>main.py\<close>\<close>

text \<open>
  What \<^verbatim>\<open>json.loads\<close> can return, and what a tool can return. A Python \<^verbatim>\<open>str\<close> is a
  list of characters and so are the bytes of its encoding; which strings have one is
  the library's \<open>str_encode\<close> below. A float is carried by its literal: the code never
  computes with one. A \<^verbatim>\<open>dict\<close> is the list of its items; Python keeps its keys
  distinct.
\<close>

datatype pyval =
    PNone
  | PBool bool
  | PInt int
  | PFloat string
  | PStr string
  | PList "pyval list"
  | PDict "(string \<times> pyval) list"

text \<open>A raised exception: its class name and \<^verbatim>\<open>str(e)\<close>.\<close>

datatype py_exn = PyExn (exn_type: string) (exn_str: string)

text \<open>A tool call of the gateway: \<^verbatim>\<open>tool_call.id\<close>, \<^verbatim>\<open>tool_call.function.name\<close>,
  \<^verbatim>\<open>tool_call.function.arguments\<close>.\<close>

record tool_call =
  call_id :: string
  function_name :: string
  arguments :: string

text \<open>\<^verbatim>\<open>response.choices[0].message\<close>: \<^verbatim>\<open>content\<close> and \<^verbatim>\<open>tool_calls\<close> may be \<^verbatim>\<open>None\<close>.\<close>

record response_message =
  content :: "string option"
  tool_calls :: "tool_call list option"

text \<open>
  A gateway response: the list \<^verbatim>\<open>choices\<close>, each with a message or \<^verbatim>\<open>None\<close>, and the
  attribute read by \<^verbatim>\<open>response.get('error', default)\<close>, when there is one.
\<close>

record response =
  choices :: "response_message option list"
  error_attr :: "pyval option"

text \<open>
  The entries of \<^verbatim>\<open>messages\<close>: the dictionaries \<^verbatim>\<open>{"role", "content"}\<close> of lines 406-413,
  the tool dictionaries of line 478 and the message objects of the gateway appended
  at lines 454, 506 and 513.
\<close>

datatype message =
    Role_content string string
  | Tool_message (tool_call_id: string) (tool_name: string) (tool_content: pyval)
  | Response_message response_message

fun role :: "message \<Rightarrow> string" where
  "role (Role_content r c) = r"
| "role (Tool_message i n c) = ''tool''"
| "role (Response_message m) = ''assistant''"

record error_entry =
  action :: string
  error :: pyval
  traceback :: "string option"

record tool_result =
  tool :: string
  result :: pyval

text \<open>The dictionary \<^verbatim>\<open>current_iteration\<close> of lines 419-425; its key \<^verbatim>\<open>"iteration"\<close> is
  the field \<open>index\<close>.\<close>

record iteration_record =
  index :: int
  actions :: "pyval list"
  llm_responses :: "string list"
  tool_results :: "tool_result list"
  errors :: "error_entry list"

text \<open>The module-level dictionary \<^verbatim>\<open>progress\<close> (lines 39-45).\<close>

record progress =
  status :: string
  iteration :: int
  max_iterations :: int
  "output" :: string
  completed :: bool

definition progress_init :: progress where
  "progress_init =
     \<lparr>status = ''idle'', iteration = 0, max_iterations = 50, output = [], completed = False\<rparr>"

text \<open>
  What the tools can reach: the dictionary \<^verbatim>\<open>progress\<close>, the table \<^verbatim>\<open>codes\<close> of
  \<^verbatim>\<open>codes.db\<close> and the state \<open>'os\<close> of the operating system, left abstract. \<open>codes\<close> is
  the list of the rows \<^verbatim>\<open>(code_id, code_content)\<close> that the last committed statement
  left, in the order of their rowids, which is the order of a \<^verbatim>\<open>SELECT\<close> over the table;
  whether the file can be opened and the statement run in the present state of the
  file system is \<open>sqlite_execute\<close> below.
  \<open>observed\<close> lists the value of \<^verbatim>\<open>progress\<close> after each assignment to one of its
  keys: these are the values a poller of \<^verbatim>\<open>/progress\<close> can read.
\<close>

record 'os world =
  progress :: progress
  codes :: "(string \<times> string) list"
  os :: 'os
  observed :: "progress list"

text \<open>
  The libraries and the outside world, as parameters. \<open>completion\<close> takes the number of
  gateway calls made before it, the conversation sent, and whether \<^verbatim>\<open>tools\<close> were
  passed; the operations on files return the new state of the operating system with
  the exception they raised, if any. \<open>str_encode\<close> is \<^verbatim>\<open>s.encode()\<close>: the bytes of the
  string, or the \<^verbatim>\<open>UnicodeEncodeError\<close> of a string with a lone surrogate, which
  \<^verbatim>\<open>json.loads\<close> can deliver. \<open>sqlite_execute\<close> takes an SQL statement and the state of
  the operating system: it is the exception that \<^verbatim>\<open>sqlite3.connect\<close>, \<^verbatim>\<open>execute\<close> or
  \<^verbatim>\<open>commit\<close> raises on \<^verbatim>\<open>codes.db\<close> there, if any (the file is not a database any more,
  it has no table \<^verbatim>\<open>codes\<close>, it cannot be written).
\<close>

record 'os env =
  supports_function_calling :: bool
  read_instructions :: "py_exn + string"
  completion :: "nat \<Rightarrow> message list \<Rightarrow> bool \<Rightarrow> py_exn + response"
  json_loads :: "string \<Rightarrow> py_exn + pyval"
  binding_error :: "string \<Rightarrow> pyval \<Rightarrow> string"
  str_encode :: "string \<Rightarrow> py_exn + string"
  sha256_hexdigest :: "string \<Rightarrow> string"
  py_repr :: "pyval \<Rightarrow> string"
  format_exc :: "py_exn \<Rightarrow> string"
  ROUTES_DIR :: string
  os_path_exists :: "pyval \<Rightarrow> 'os \<Rightarrow> py_exn + bool"
  os_makedirs :: "pyval \<Rightarrow> 'os \<Rightarrow> py_exn option \<times> 'os"
  open_write :: "bool \<Rightarrow> pyval \<Rightarrow> pyval \<Rightarrow> 'os \<Rightarrow> py_exn option \<times> 'os"
  open_read :: "pyval \<Rightarrow> 'os \<Rightarrow> py_exn + string"
  dump_log :: "iteration_record list \<Rightarrow> 'os \<Rightarrow> py_exn option \<times> 'os"
  sqlite_execute :: "string \<Rightarrow> 'os \<Rightarrow> py_exn option"
  sqlite_text :: "pyval \<Rightarrow> py_exn + string"
  ast_function_info :: "string \<Rightarrow> py_exn + string \<times> string"

text \<open>An f-string field \<^verbatim>\<open>{v}\<close>: a \<^verbatim>\<open>str\<close> is itself, anything else is the library's text.\<close>

definition py_str :: "'os env \<Rightarrow> pyval \<Rightarrow> string" where
  "py_str env v = (case v of PStr s \<Rightarrow> s | _ \<Rightarrow> py_repr env v)"

fun py_type_name :: "pyval \<Rightarrow> string" where
  "py_type_name PNone = ''NoneType''"
| "py_type_name (PBool b) = ''bool''"
| "py_type_name (PInt i) = ''int''"
| "py_type_name (PFloat f) = ''float''"
| "py_type_name (PStr s) = ''str''"
| "py_type_name (PList l) = ''list''"
| "py_type_name (PDict d) = ''dict''"

section \<open>The tools (lines 48-82, 112-115, 175-235)\<close>

text \<open>An assignment \<^verbatim>\<open>progress[key] = value\<close>.\<close>

definition set_progress :: "(progress \<Rightarrow> progress) \<Rightarrow> 'os world \<Rightarrow> 'os world" where
  "set_progress f w =
     (let p = f (progress w) in w\<lparr>progress := p, observed := observed w @ [p]\<rparr>)"

text \<open>
  \<open>open_write env True\<close> is \<^verbatim>\<open>with open(path, 'x') as f: f.write(content)\<close> and
  \<open>open_write env False\<close> the same with mode \<^verbatim>\<open>'w'\<close>. The second \<^verbatim>\<open>open\<close> of
  \<^verbatim>\<open>create_file\<close> is inside a handler: what it raises leaves the function.
\<close>

definition create_file ::
  "'os env \<Rightarrow> pyval \<Rightarrow> pyval \<Rightarrow> 'os world \<Rightarrow> (py_exn + pyval) \<times> 'os world" where
  "create_file env path content_v w =
     (case open_write env True path content_v (os w) of
        (None, os1) \<Rightarrow> (Inr (PStr (''Created file: '' @ py_str env path)), w\<lparr>os := os1\<rparr>)
      | (Some e, os1) \<Rightarrow>
          if exn_type e = ''FileExistsError'' then
            (case open_write env False path content_v os1 of
               (None, os2) \<Rightarrow>
                 (Inr (PStr (''Updated file: '' @ py_str env path)), w\<lparr>os := os2\<rparr>)
             | (Some e2, os2) \<Rightarrow> (Inl e2, w\<lparr>os := os2\<rparr>))
          else
            (Inr (PStr (''Error creating/updating file '' @ py_str env path @ '': ''
                        @ exn_str e)), w\<lparr>os := os1\<rparr>))"

definition create_directory ::
  "'os env \<Rightarrow> pyval \<Rightarrow> 'os world \<Rightarrow> (py_exn + pyval) \<times> 'os world" where
  "create_directory env path w =
     (case os_path_exists env path (os w) of
        Inl e \<Rightarrow> (Inl e, w)
      | Inr True \<Rightarrow> (Inr (PStr (''Directory already exists: '' @ py_str env path)), w)
      | Inr False \<Rightarrow>
          (case os_makedirs env path (os w) of
             (Some e, os1) \<Rightarrow> (Inl e, w\<lparr>os := os1\<rparr>)
           | (None, os1) \<Rightarrow>
               let w1 = w\<lparr>os := os1\<rparr>;
                   created = Inr (PStr (''Created directory: '' @ py_str env path)) in
               if path = PStr (ROUTES_DIR env) then
                 (case create_file env (PStr (ROUTES_DIR env @ ''/__init__.py'')) (PStr [])
                         w1 of
                    (Inl e, w2) \<Rightarrow> (Inl e, w2)
                  | (Inr r, w2) \<Rightarrow> (created, w2))
               else (created, w1)))"

definition update_file ::
  "'os env \<Rightarrow> pyval \<Rightarrow> pyval \<Rightarrow> 'os world \<Rightarrow> (py_exn + pyval) \<times> 'os world" where
  "update_file env path content_v w =
     (case open_write env False path content_v (os w) of
        (None, os1) \<Rightarrow> (Inr (PStr (''Updated file: '' @ py_str env path)), w\<lparr>os := os1\<rparr>)
      | (Some e, os1) \<Rightarrow>
          (Inr (PStr (''Error updating file '' @ py_str env path @ '': '' @ exn_str e)),
           w\<lparr>os := os1\<rparr>))"

definition fetch_code ::
  "'os env \<Rightarrow> pyval \<Rightarrow> 'os world \<Rightarrow> (py_exn + pyval) \<times> 'os world" where
  "fetch_code env file_path w =
     (case open_read env file_path (os w) of
        Inr code \<Rightarrow> (Inr (PStr code), w)
      | Inl e \<Rightarrow>
          (Inr (PStr (''Error fetching code from '' @ py_str env file_path @ '': ''
                      @ exn_str e)), w))"

definition task_completed :: "'os world \<Rightarrow> (py_exn + pyval) \<times> 'os world" where
  "task_completed w =
     (Inr (PStr ''Task marked as completed.''),
      set_progress (\<lambda>p. p\<lparr>completed := True\<rparr>)
        (set_progress (\<lambda>p. p\<lparr>status := ''completed''\<rparr>) w))"

text \<open>
  \<^verbatim>\<open>store_code\<close> (lines 175-184). The identifier is the SHA-256 digest of the encoded
  content: a value that is not a \<^verbatim>\<open>str\<close> has no \<^verbatim>\<open>encode\<close>, and \<^verbatim>\<open>encode\<close> raises on a
  lone surrogate. \<^verbatim>\<open>INSERT OR REPLACE\<close> deletes the row that has the identifier, if there
  is one, and inserts the new row with a new rowid, after every other row. When a call
  of \<^verbatim>\<open>sqlite3\<close> raises, nothing was committed and the exception leaves the function.
\<close>

definition code_id_of :: "'os env \<Rightarrow> string \<Rightarrow> py_exn + string" where
  "code_id_of env code_content =
     (case str_encode env code_content of
        Inl e \<Rightarrow> Inl e
      | Inr bytes \<Rightarrow> Inr (sha256_hexdigest env bytes))"

definition insert_or_replace ::
  "string \<Rightarrow> string \<Rightarrow> (string \<times> string) list \<Rightarrow> (string \<times> string) list" where
  "insert_or_replace code_id code_content rows =
     filter (\<lambda>row. fst row \<noteq> code_id) rows @ [(code_id, code_content)]"

definition store_code ::
  "'os env \<Rightarrow> pyval \<Rightarrow> 'os world \<Rightarrow> (py_exn + pyval) \<times> 'os world" where
  "store_code env code_content w =
     (case code_content of
        PStr s \<Rightarrow>
          (case code_id_of env s of
             Inl e \<Rightarrow> (Inl e, w)
           | Inr code_id \<Rightarrow>
               (case sqlite_execute env
                       ''INSERT OR REPLACE INTO codes (code_id, code_content) VALUES (?, ?)''
                       (os w) of
                  Some e \<Rightarrow> (Inl e, w)
                | None \<Rightarrow>
                    (Inr (PStr (''Code stored with ID: '' @ code_id)),
                     w\<lparr>codes := insert_or_replace code_id s (codes w)\<rparr>)))
      | _ \<Rightarrow>
          (Inl (PyExn ''AttributeError''
                  ([CHR 0x27] @ py_type_name code_content
                   @ [CHR 0x27] @ '' object has no attribute '' @ [CHR 0x27] @ ''encode''
                   @ [CHR 0x27])), w))"

text \<open>
  \<^verbatim>\<open>retrieve_code\<close> (lines 186-195). The parameter of the query is bound as text: a
  \<^verbatim>\<open>str\<close> is encoded, and \<open>sqlite_text\<close> is the text the database compares with the
  column when the parameter is not a \<^verbatim>\<open>str\<close>, or the exception of a value it cannot
  bind. \<^verbatim>\<open>fetchone\<close> is the row that has the identifier, or \<^verbatim>\<open>None\<close>.
\<close>

definition retrieve_code ::
  "'os env \<Rightarrow> pyval \<Rightarrow> 'os world \<Rightarrow> (py_exn + pyval) \<times> 'os world" where
  "retrieve_code env code_id w =
     (case (case code_id of
              PStr s \<Rightarrow> (case str_encode env s of Inl e \<Rightarrow> Inl e | Inr bytes \<Rightarrow> Inr s)
            | _ \<Rightarrow> sqlite_text env code_id) of
        Inl e \<Rightarrow> (Inl e, w)
      | Inr k \<Rightarrow>
          (case sqlite_execute env ''SELECT code_content FROM codes WHERE code_id = ?''
                  (os w) of
             Some e \<Rightarrow> (Inl e, w)
           | None \<Rightarrow>
               (case map_of (codes w) k of
                  Some code_content \<Rightarrow> (Inr (PStr code_content), w)
                | None \<Rightarrow>
                    (Inr (PStr (''Code with ID '' @ py_str env code_id @ '' not found.'')),
                     w))))"

text \<open>
  \<^verbatim>\<open>list_all_functions\<close> (lines 197-235): \<^verbatim>\<open>fetchall\<close> gives the rows of the table in
  their order, and \<open>ast_function_info\<close> is the name and the description that the walk
  over the parsed content ends with (the defaults included), or the exception of the
  parse.
\<close>

definition function_entry :: "'os env \<Rightarrow> string \<times> string \<Rightarrow> pyval" where
  "function_entry env row =
     (case row of (code_id, code_content) \<Rightarrow>
        (case ast_function_info env code_content of
           Inr (function_name_v, function_description) \<Rightarrow>
             PDict [(''code_id'', PStr code_id),
                    (''function_name'', PStr function_name_v),
                    (''function_description'', PStr function_description)]
         | Inl e \<Rightarrow>
             PDict [(''code_id'', PStr code_id),
                    (''function_name'', PStr ''Unknown''),
                    (''function_description'', PStr (''Parsing error: '' @ exn_str e))]))"

definition list_all_functions ::
  "'os env \<Rightarrow> 'os world \<Rightarrow> (py_exn + pyval) \<times> 'os world" where
  "list_all_functions env w =
     (case sqlite_execute env ''SELECT code_id, code_content FROM codes'' (os w) of
        Some e \<Rightarrow> (Inl e, w)
      | None \<Rightarrow> (Inr (PList (map (function_entry env) (codes w))), w))"

section \<open>The registry and a call \<^verbatim>\<open>function_to_call(**function_args)\<close>\<close>

datatype tool_fn =
    Create_directory | Create_file | Update_file | Fetch_code
  | Task_completed | Store_code | Retrieve_code | List_all_functions

definition available_functions :: "string \<rightharpoonup> tool_fn" where
  "available_functions =
     map_of [(''create_directory'', Create_directory),
             (''create_file'', Create_file),
             (''update_file'', Update_file),
             (''fetch_code'', Fetch_code),
             (''task_completed'', Task_completed),
             (''store_code'', Store_code),
             (''retrieve_code'', Retrieve_code),
             (''list_all_functions'', List_all_functions)]"

text \<open>The parameters of each \<^verbatim>\<open>def\<close>; none has a default.\<close>

fun parameters :: "tool_fn \<Rightarrow> string list" where
  "parameters Create_directory = [''path'']"
| "parameters Create_file = [''path'', ''content'']"
| "parameters Update_file = [''path'', ''content'']"
| "parameters Fetch_code = [''file_path'']"
| "parameters Task_completed = []"
| "parameters Store_code = [''code_content'']"
| "parameters Retrieve_code = [''code_id'']"
| "parameters List_all_functions = []"

text \<open>
  \<^verbatim>\<open>**function_args\<close> needs a \<^verbatim>\<open>dict\<close> whose keys are exactly the parameters; anything
  else is a \<^verbatim>\<open>TypeError\<close> raised before the body of the function runs.
\<close>

definition bind_args ::
  "'os env \<Rightarrow> string \<Rightarrow> string list \<Rightarrow> pyval \<Rightarrow> py_exn + pyval list" where
  "bind_args env fname ps function_args =
     (case function_args of
        PDict kvs \<Rightarrow>
          (if set (map fst kvs) = set ps then
             (case those (map (map_of kvs) ps) of
                Some vs \<Rightarrow> Inr vs
              | None \<Rightarrow> Inl (PyExn ''TypeError'' (binding_error env fname function_args)))
           else Inl (PyExn ''TypeError'' (binding_error env fname function_args)))
      | _ \<Rightarrow> Inl (PyExn ''TypeError'' (binding_error env fname function_args)))"

fun call_body ::
  "'os env \<Rightarrow> tool_fn \<Rightarrow> pyval list \<Rightarrow> 'os world \<Rightarrow> (py_exn + pyval) \<times> 'os world" where
  "call_body env Create_directory [path] w = create_directory env path w"
| "call_body env Create_file [path, content_v] w = create_file env path content_v w"
| "call_body env Update_file [path, content_v] w = update_file env path content_v w"
| "call_body env Fetch_code [file_path] w = fetch_code env file_path w"
| "call_body env Task_completed [] w = task_completed w"
| "call_body env Store_code [code_content] w = store_code env code_content w"
| "call_body env Retrieve_code [code_id] w = retrieve_code env code_id w"
| "call_body env List_all_functions [] w = list_all_functions env w"
| "call_body env f vs w = (Inl (PyExn ''TypeError'' []), w)"

definition call_function ::
  "'os env \<Rightarrow> string \<Rightarrow> tool_fn \<Rightarrow> pyval \<Rightarrow> 'os world \<Rightarrow> (py_exn + pyval) \<times> 'os world"
  where
  "call_function env fname f function_args w =
     (case bind_args env fname (parameters f) function_args of
        Inl e \<Rightarrow> (Inl e, w)
      | Inr vs \<Rightarrow> call_body env f vs w)"

section \<open>The run: \<^verbatim>\<open>log_to_file\<close> and \<^verbatim>\<open>run_main_loop\<close> (lines 126-131, 392-535)\<close>

text \<open>
  The local variables of \<^verbatim>\<open>run_main_loop\<close> (\<open>history_dict\<close> is the list
  \<^verbatim>\<open>history_dict['iterations']\<close>, \<open>output_local\<close> the variable \<^verbatim>\<open>output\<close>), the world, the
  number of calls of \<^verbatim>\<open>completion\<close> made so far, and the argument of each call of
  \<^verbatim>\<open>log_to_file\<close> so far, whether its write succeeded or not. The calls of
  \<^verbatim>\<open>sleep\<close> (lines 440 and 527) change nothing of this state and are left out.
\<close>

record 'os run_state =
  world :: "'os world"
  gateway_calls :: nat
  log_calls :: "iteration_record list list"
  history_dict :: "iteration_record list"
  messages :: "message list"
  output_local :: string

text \<open>
  How a block of statements ends: at its last statement, with an exception, with the
  \<^verbatim>\<open>continue\<close> of the \<^verbatim>\<open>while\<close> loop, or with \<^verbatim>\<open>return output\<close>.
\<close>

datatype flow = Normal | Raise py_exn | Continue_loop | Return_output

definition nl :: string where
  "nl = [CHR 0x0A]"

definition quote :: string where
  "quote = [CHR 0x27]"

text \<open>
  \<^verbatim>\<open>log_to_file\<close>: the \<^verbatim>\<open>try\<close> holds the whole body, and its handler is \<^verbatim>\<open>pass\<close>. The
  first component is the exception that leaves the function.
\<close>

definition log_to_file ::
  "'os env \<Rightarrow> iteration_record list \<Rightarrow> 'os run_state \<Rightarrow> py_exn option \<times> 'os run_state"
  where
  "log_to_file env history st =
     (case dump_log env history (os (world st)) of
        (r, os1) \<Rightarrow>
          let st1 = st\<lparr>world := (world st)\<lparr>os := os1\<rparr>,
                       log_calls := log_calls st @ [history]\<rparr> in
          (case r of
             None \<Rightarrow> (None, st1)
           | Some e \<Rightarrow> (None, st1)))"

text \<open>
  \<^verbatim>\<open>current_iteration\<close> is the dictionary appended to the history at line 426, and
  nothing is appended after it during the pass: a change of \<^verbatim>\<open>current_iteration\<close> is
  a change of the last record of the history.
\<close>

definition upd_last :: "('a \<Rightarrow> 'a) \<Rightarrow> 'a list \<Rightarrow> 'a list" where
  "upd_last f xs = (if xs = [] then [] else butlast xs @ [f (last xs)])"

definition upd_current ::
  "(iteration_record \<Rightarrow> iteration_record) \<Rightarrow> 'os run_state \<Rightarrow> 'os run_state" where
  "upd_current f st = st\<lparr>history_dict := upd_last f (history_dict st)\<rparr>"

definition add_error :: "error_entry \<Rightarrow> 'os run_state \<Rightarrow> 'os run_state" where
  "add_error e st = upd_current (\<lambda>c. c\<lparr>errors := errors c @ [e]\<rparr>) st"

definition add_output :: "string \<Rightarrow> 'os run_state \<Rightarrow> 'os run_state" where
  "add_output s st = st\<lparr>output_local := output_local st @ s\<rparr>"

definition add_message :: "message \<Rightarrow> 'os run_state \<Rightarrow> 'os run_state" where
  "add_message m st = st\<lparr>messages := messages st @ [m]\<rparr>"

definition write_progress ::
  "(progress \<Rightarrow> progress) \<Rightarrow> 'os run_state \<Rightarrow> 'os run_state" where
  "write_progress f st = st\<lparr>world := set_progress f (world st)\<rparr>"

definition not_available_error :: "string \<Rightarrow> error_entry" where
  "not_available_error fname =
     \<lparr>action = ''tool_call_'' @ fname,
      error = PStr (''Tool '' @ quote @ fname @ quote @ '' is not available.''),
      traceback = Some ''No traceback available.''\<rparr>"

definition tool_error_entry :: "'os env \<Rightarrow> string \<Rightarrow> py_exn \<Rightarrow> error_entry" where
  "tool_error_entry env fname tool_error =
     \<lparr>action = ''tool_call_'' @ fname,
      error = PStr (''Error executing '' @ fname @ '': '' @ exn_str tool_error),
      traceback = Some (format_exc env tool_error)\<rparr>"

text \<open>Lines 472-479: what follows a call that returned \<open>function_response\<close>.\<close>

definition record_tool_result ::
  "'os env \<Rightarrow> tool_call \<Rightarrow> pyval \<Rightarrow> 'os run_state \<Rightarrow> 'os run_state" where
  "record_tool_result env tc function_response st =
     (let fname = function_name tc;
          st1 = upd_current
                  (\<lambda>c. c\<lparr>tool_results := tool_results c
                           @ [\<lparr>tool = fname, result = function_response\<rparr>]\<rparr>) st;
          st2 = add_output (''<strong>Tool Result ('' @ fname @ ''):</strong>'' @ nl
                            @ ''<p>'' @ py_str env function_response @ ''</p>'' @ nl) st1
      in add_message (Tool_message (call_id tc) fname function_response) st2)"

text \<open>Lines 482-487: the branch of \<^verbatim>\<open>function_name == "task_completed"\<close>.\<close>

definition mark_completed :: "'os run_state \<Rightarrow> 'os run_state" where
  "mark_completed st =
     (let st1 = write_progress (\<lambda>p. p\<lparr>status := ''completed''\<rparr>) st;
          st2 = write_progress (\<lambda>p. p\<lparr>completed := True\<rparr>) st1;
          st3 = add_output (nl @ ''<h2>COMPLETE</h2>'' @ nl) st2
      in write_progress (\<lambda>p. p\<lparr>output := output_local st3\<rparr>) st3)"

definition signal_completion :: "'os env \<Rightarrow> 'os run_state \<Rightarrow> flow \<times> 'os run_state" where
  "signal_completion env st =
     (let st4 = mark_completed st in
      case log_to_file env (history_dict st4) st4 of
        (Some e, st5) \<Rightarrow> (Raise e, st5)
      | (None, st5) \<Rightarrow> (Return_output, st5))"

text \<open>The body of the inner \<^verbatim>\<open>try\<close> (lines 470-487).\<close>

definition try_tool_call ::
  "'os env \<Rightarrow> tool_call \<Rightarrow> tool_fn \<Rightarrow> 'os run_state \<Rightarrow> flow \<times> 'os run_state" where
  "try_tool_call env tc function_to_call st =
     (let fname = function_name tc in
      case json_loads env (arguments tc) of
        Inl e \<Rightarrow> (Raise e, st)
      | Inr function_args \<Rightarrow>
          (case call_function env fname function_to_call function_args (world st) of
             (Inl e, w1) \<Rightarrow> (Raise e, st\<lparr>world := w1\<rparr>)
           | (Inr function_response, w1) \<Rightarrow>
               let st1 = record_tool_result env tc function_response (st\<lparr>world := w1\<rparr>) in
               if fname = ''task_completed'' then signal_completion env st1
               else (Normal, st1)))"

text \<open>One turn of the \<^verbatim>\<open>for\<close> loop (lines 457-495).\<close>

definition dispatch_tool_call ::
  "'os env \<Rightarrow> tool_call \<Rightarrow> 'os run_state \<Rightarrow> flow \<times> 'os run_state" where
  "dispatch_tool_call env tc st =
     (let fname = function_name tc in
      case available_functions fname of
        None \<Rightarrow> (Normal, add_error (not_available_error fname) st)
      | Some function_to_call \<Rightarrow>
          (case try_tool_call env tc function_to_call st of
             (Raise tool_error, st1) \<Rightarrow>
               (Normal, add_error (tool_error_entry env fname tool_error) st1)
           | other \<Rightarrow> other))"

fun dispatch_tool_calls ::
  "'os env \<Rightarrow> tool_call list \<Rightarrow> 'os run_state \<Rightarrow> flow \<times> 'os run_state" where
  "dispatch_tool_calls env [] st = (Normal, st)"
| "dispatch_tool_calls env (tc # rest) st =
     (case dispatch_tool_call env tc st of
        (Normal, st1) \<Rightarrow> dispatch_tool_calls env rest st1
      | other \<Rightarrow> other)"

definition call_completion ::
  "'os env \<Rightarrow> bool \<Rightarrow> 'os run_state \<Rightarrow> (py_exn + response) \<times> 'os run_state" where
  "call_completion env with_tools st =
     (completion env (gateway_calls st) (messages st) with_tools,
      st\<lparr>gateway_calls := Suc (gateway_calls st)\<rparr>)"

text \<open>The second call of the gateway (lines 497-509).\<close>

definition second_round :: "'os env \<Rightarrow> 'os run_state \<Rightarrow> flow \<times> 'os run_state" where
  "second_round env st =
     (case call_completion env False st of
        (Inl e, st1) \<Rightarrow> (Raise e, st1)
      | (Inr second_response, st1) \<Rightarrow>
          (case choices second_response of
             Some second_response_message # _ \<Rightarrow>
               let content_v = (case content second_response_message of
                                  None \<Rightarrow> [] | Some c \<Rightarrow> c);
                   st2 = upd_current
                           (\<lambda>c. c\<lparr>llm_responses := llm_responses c @ [content_v]\<rparr>) st1;
                   st3 = add_output (''<strong>LLM Response:</strong>'' @ nl @ ''<p>''
                                     @ content_v @ ''</p>'' @ nl) st2
               in (Normal, add_message (Response_message second_response_message) st3)
           | _ \<Rightarrow>
               let error_v = (case error_attr second_response of
                                Some v \<Rightarrow> v
                              | None \<Rightarrow> PStr ''Unknown error in second LLM response.'')
               in (Normal,
                   add_error \<lparr>action = ''second_llm_completion'', error = error_v,
                              traceback = None\<rparr> st1)))"

text \<open>Lines 450-513: the branch on \<^verbatim>\<open>tool_calls\<close>, false when \<^verbatim>\<open>None\<close> or empty.\<close>

definition tool_calls_branch ::
  "'os env \<Rightarrow> response_message \<Rightarrow> string \<Rightarrow> 'os run_state \<Rightarrow> flow \<times> 'os run_state"
  where
  "tool_calls_branch env response_message_v content_v st =
     (case tool_calls response_message_v of
        Some (tc # tcs) \<Rightarrow>
          let st1 = add_output (''<strong>Tool Call:</strong>'' @ nl @ ''<p>''
                                @ content_v @ ''</p>'' @ nl) st;
              st2 = add_message (Response_message response_message_v) st1
          in
          (case dispatch_tool_calls env (tc # tcs) st2 of
             (Normal, st3) \<Rightarrow> second_round env st3
           | other \<Rightarrow> other)
      | _ \<Rightarrow>
          let st1 = add_output (''<strong>LLM Response:</strong>'' @ nl @ ''<p>''
                                @ content_v @ ''</p>'' @ nl) st
          in (Normal, add_message (Response_message response_message_v) st1))"

text \<open>Lines 444-515: the pass once the first response has a message.\<close>

definition process_message ::
  "'os env \<Rightarrow> int \<Rightarrow> response_message \<Rightarrow> 'os run_state \<Rightarrow> flow \<times> 'os run_state" where
  "process_message env iteration_v response_message_v st =
     (let content_v = (case content response_message_v of None \<Rightarrow> [] | Some c \<Rightarrow> c);
          st1 = upd_current (\<lambda>c. c\<lparr>llm_responses := llm_responses c @ [content_v]\<rparr>) st;
          st2 = add_output (nl @ ''<h2>Iteration '' @ py_str env (PInt (iteration_v + 1))
                            @ '':</h2>'' @ nl) st1
      in
      case tool_calls_branch env response_message_v content_v st2 of
        (Normal, st3) \<Rightarrow>
          (Normal, write_progress (\<lambda>p. p\<lparr>output := output_local st3\<rparr>) st3)
      | other \<Rightarrow> other)"

text \<open>
  The body of the outer \<^verbatim>\<open>try\<close> (lines 429-515), with the value of \<^verbatim>\<open>iteration\<close> it
  ends with. \<^verbatim>\<open>response.choices[0]\<close> raises on an empty list.
\<close>

definition pass_body ::
  "'os env \<Rightarrow> int \<Rightarrow> 'os run_state \<Rightarrow> flow \<times> int \<times> 'os run_state" where
  "pass_body env iteration_v st =
     (case call_completion env True st of
        (Inl e, st1) \<Rightarrow> (Raise e, iteration_v, st1)
      | (Inr response_v, st1) \<Rightarrow>
          (case choices response_v of
             [] \<Rightarrow> (Raise (PyExn ''IndexError'' ''list index out of range''), iteration_v, st1)
           | None # _ \<Rightarrow>
               let error_v = (case error_attr response_v of
                                Some v \<Rightarrow> v | None \<Rightarrow> PStr ''Unknown error'');
                   st2 = add_error \<lparr>action = ''llm_completion'', error = error_v,
                                    traceback = None\<rparr> st1
               in
               (case log_to_file env (history_dict st2) st2 of
                  (Some e, st3) \<Rightarrow> (Raise e, iteration_v, st3)
                | (None, st3) \<Rightarrow> (Continue_loop, iteration_v + 1, st3))
           | Some response_message_v # _ \<Rightarrow>
               (case process_message env iteration_v response_message_v st1 of
                  (fl, st2) \<Rightarrow> (fl, iteration_v, st2))))"

definition new_iteration_record :: "int \<Rightarrow> iteration_record" where
  "new_iteration_record i =
     \<lparr>index = i, actions = [], llm_responses = [], tool_results = [], errors = []\<rparr>"

text \<open>Lines 525-527, outside the \<^verbatim>\<open>try\<close>.\<close>

definition end_of_pass ::
  "'os env \<Rightarrow> int \<Rightarrow> 'os run_state \<Rightarrow> flow \<times> int \<times> 'os run_state" where
  "end_of_pass env iteration_v st =
     (case log_to_file env (history_dict st) st of
        (Some e, st1) \<Rightarrow> (Raise e, iteration_v + 1, st1)
      | (None, st1) \<Rightarrow> (Normal, iteration_v + 1, st1))"

text \<open>One pass of the \<^verbatim>\<open>while\<close> loop (lines 418-527).\<close>

definition loop_pass ::
  "'os env \<Rightarrow> int \<Rightarrow> 'os run_state \<Rightarrow> flow \<times> int \<times> 'os run_state" where
  "loop_pass env iteration_v st =
     (let st1 = write_progress (\<lambda>p. p\<lparr>iteration := iteration_v + 1\<rparr>) st;
          st2 = st1\<lparr>history_dict :=
                       history_dict st1 @ [new_iteration_record (iteration_v + 1)]\<rparr>
      in
      case pass_body env iteration_v st2 of
        (Normal, iteration1, st3) \<Rightarrow> end_of_pass env iteration1 st3
      | (Raise e, iteration1, st3) \<Rightarrow>
          end_of_pass env iteration1
            (add_error \<lparr>action = ''main_loop'', error = PStr (exn_str e),
                        traceback = Some (format_exc env e)\<rparr> st3)
      | (Continue_loop, iteration1, st3) \<Rightarrow> (Normal, iteration1, st3)
      | (Return_output, iteration1, st3) \<Rightarrow> (Return_output, iteration1, st3))"

lemma try_tool_call_flow:
  "try_tool_call env tc f st = (fl, st1) \<Longrightarrow> fl \<noteq> Continue_loop"
  by (auto simp: try_tool_call_def signal_completion_def Let_def log_to_file_def
           split: sum.splits prod.splits if_splits option.splits)

lemma dispatch_tool_call_flow:
  "dispatch_tool_call env tc st = (fl, st1) \<Longrightarrow> fl = Normal \<or> fl = Return_output"
  by (auto simp: dispatch_tool_call_def Let_def
           split: option.splits prod.splits flow.splits dest: try_tool_call_flow)

lemma dispatch_tool_calls_flow:
  "dispatch_tool_calls env tcs st = (fl, st1) \<Longrightarrow> fl = Normal \<or> fl = Return_output"
proof (induction tcs arbitrary: st)
  case Nil
  then show ?case by simp
next
  case (Cons tc rest)
  obtain fl0 st0 where d: "dispatch_tool_call env tc st = (fl0, st0)"
    by (cases "dispatch_tool_call env tc st")
  from dispatch_tool_call_flow [OF d] show ?case
  proof
    assume "fl0 = Normal"
    with Cons d show ?thesis by simp
  next
    assume "fl0 = Return_output"
    with Cons.prems d show ?thesis by simp
  qed
qed

lemma second_round_flow:
  "second_round env st = (fl, st1) \<Longrightarrow> fl \<noteq> Continue_loop"
  by (auto simp: second_round_def Let_def
           split: sum.splits prod.splits list.splits option.splits)

lemma tool_calls_branch_flow:
  "tool_calls_branch env m c st = (fl, st1) \<Longrightarrow> fl \<noteq> Continue_loop"
  unfolding tool_calls_branch_def Let_def
  by (auto simp del: dispatch_tool_calls.simps
           split: option.splits list.splits prod.splits flow.splits
           dest: second_round_flow dispatch_tool_calls_flow)

lemma process_message_flow:
  "process_message env i m st = (fl, st1) \<Longrightarrow> fl \<noteq> Continue_loop"
  unfolding process_message_def Let_def
  by (auto split: prod.splits flow.splits dest: tool_calls_branch_flow)

lemma pass_body_iteration:
  "pass_body env i st = (fl, i1, st1) \<Longrightarrow>
     (fl = Continue_loop \<longrightarrow> i1 = i + 1) \<and> (fl \<noteq> Continue_loop \<longrightarrow> i1 = i)"
  by (auto simp: pass_body_def Let_def log_to_file_def
           split: prod.splits sum.splits list.splits option.splits
           dest: process_message_flow)

lemma loop_pass_iteration:
  "loop_pass env i st = (Normal, i1, st1) \<Longrightarrow> i1 = i + 1"
  by (auto simp: loop_pass_def Let_def end_of_pass_def log_to_file_def
           split: prod.splits flow.splits option.splits dest: pass_body_iteration)

function main_loop ::
  "'os env \<Rightarrow> int \<Rightarrow> int \<Rightarrow> 'os run_state \<Rightarrow> flow \<times> int \<times> 'os run_state" where
  "main_loop env max_iterations_v iteration_v st =
     (if iteration_v < max_iterations_v then
        (case loop_pass env iteration_v st of
           (Normal, iteration1, st1) \<Rightarrow> main_loop env max_iterations_v iteration1 st1
         | other \<Rightarrow> other)
      else (Normal, iteration_v, st))"
  by pat_completeness auto
termination
  by (relation "measure (\<lambda>(env, m, i, st). nat (m - i))")
     (auto dest: loop_pass_iteration [OF sym])

declare main_loop.simps [simp del]

definition initial_history_dump :: string where
  "initial_history_dump =
     ''{'' @ nl @ ''  '' @ [CHR 0x22] @ ''iterations'' @ [CHR 0x22] @ '': []'' @ nl @ ''}''"

definition run_main_loop ::
  "'os env \<Rightarrow> string \<Rightarrow> 'os world \<Rightarrow> (py_exn + string) \<times> 'os run_state" where
  "run_main_loop env user_input w =
     (let st = \<lparr>world = w, gateway_calls = 0, log_calls = [], history_dict = [],
                messages = [], output_local = []\<rparr>
      in
      if \<not> supports_function_calling env then
        let st1 = write_progress (\<lambda>p. p\<lparr>status := ''error''\<rparr>) st;
            st2 = write_progress
                    (\<lambda>p. p\<lparr>output := ''Model does not support function calling.''\<rparr>) st1;
            st3 = write_progress (\<lambda>p. p\<lparr>completed := True\<rparr>) st2
        in (Inr ''Model does not support function calling.'', st3)
      else
        let max_iterations_v = max_iterations (progress w) in
        case read_instructions env of
          Inl e \<Rightarrow> (Inl e, st)
        | Inr instructions \<Rightarrow>
            let st1 = st\<lparr>messages :=
                           [Role_content ''system'' instructions,
                            Role_content ''user'' user_input,
                            Role_content ''system''
                              (''History:'' @ nl @ initial_history_dump)]\<rparr>
            in
            (case main_loop env max_iterations_v 0 st1 of
               (Return_output, i, st2) \<Rightarrow> (Inr (output_local st2), st2)
             | (Raise e, i, st2) \<Rightarrow> (Inl e, st2)
             | (fl, i, st2) \<Rightarrow>
                 let st3 = (if i \<ge> max_iterations_v
                            then write_progress (\<lambda>p. p\<lparr>status := ''completed''\<rparr>) st2
                            else st2);
                     st4 = write_progress (\<lambda>p. p\<lparr>completed := True\<rparr>) st3;
                     st5 = write_progress (\<lambda>p. p\<lparr>status := ''completed''\<rparr>) st4
                 in (Inr (output_local st5), st5)))"

text \<open>The assignments of \<^verbatim>\<open>home\<close> before it starts the run (lines 143-146).\<close>

definition home_post :: "'os world \<Rightarrow> 'os world" where
  "home_post w =
     set_progress (\<lambda>p. p\<lparr>completed := False\<rparr>)
       (set_progress (\<lambda>p. p\<lparr>output := []\<rparr>)
          (set_progress (\<lambda>p. p\<lparr>iteration := 0\<rparr>)
             (set_progress (\<lambda>p. p\<lparr>status := ''running''\<rparr>) w)))"

section \<open>Notions for the statements and their proofs\<close>

text \<open>
  \<open>prog_keeps p q\<close>: from \<open>p\<close> to \<open>q\<close> the keys \<^verbatim>\<open>iteration\<close> and \<^verbatim>\<open>max_iterations\<close>
  of \<^verbatim>\<open>progress\<close> are unchanged, and \<^verbatim>\<open>status\<close> is unchanged or \<^verbatim>\<open>"completed"\<close>.
  \<open>world_keeps w w1\<close>: this holds from \<open>w\<close> to \<open>w1\<close> and to every value of
  \<^verbatim>\<open>progress\<close> written in between.
\<close>

definition prog_keeps :: "progress \<Rightarrow> progress \<Rightarrow> bool" where
  "prog_keeps p q \<longleftrightarrow>
     iteration q = iteration p \<and> max_iterations q = max_iterations p
     \<and> (status q = status p \<or> status q = ''completed'')"

definition world_keeps :: "'os world \<Rightarrow> 'os world \<Rightarrow> bool" where
  "world_keeps w w1 \<longleftrightarrow>
     prog_keeps (progress w) (progress w1)
     \<and> (\<exists>ps. observed w1 = observed w @ ps \<and> list_all (prog_keeps (progress w)) ps)"

text \<open>
  \<open>pass_keeps st st1\<close>: from \<open>st\<close> to \<open>st1\<close> the world is kept as above, and the
  history has the same records before its last one, and the same indices.
\<close>

definition pass_keeps :: "'os run_state \<Rightarrow> 'os run_state \<Rightarrow> bool" where
  "pass_keeps st st1 \<longleftrightarrow>
     world_keeps (world st) (world st1)
     \<and> butlast (history_dict st1) = butlast (history_dict st)
     \<and> map index (history_dict st1) = map index (history_dict st)"

text \<open>
  \<open>run_keeps P w w1\<close>: the property \<open>P\<close> holds of \<^verbatim>\<open>progress\<close> in \<open>w1\<close> and of every
  value written to it since \<open>w\<close>.
\<close>

definition run_keeps :: "(progress \<Rightarrow> bool) \<Rightarrow> 'os world \<Rightarrow> 'os world \<Rightarrow> bool" where
  "run_keeps P w w1 \<longleftrightarrow>
     P (progress w1) \<and> (\<exists>ps. observed w1 = observed w @ ps \<and> list_all P ps)"

text \<open>
  \<open>hist_inv st\<close>: the records of the history are numbered 1, 2, ... in order, and the
  k-th call of \<^verbatim>\<open>log_to_file\<close> was given the first k records of the history.
\<close>

definition hist_inv :: "'os run_state \<Rightarrow> bool" where
  "hist_inv st \<longleftrightarrow>
     map index (history_dict st) = map int [1..<Suc (length (history_dict st))]
     \<and> log_calls st
         = map (\<lambda>k. take (Suc k) (history_dict st)) [0..<length (history_dict st)]"

text \<open>The state a run ends with.\<close>

definition run_final :: "'os env \<Rightarrow> string \<Rightarrow> 'os world \<Rightarrow> 'os run_state" where
  "run_final env user_input w = snd (run_main_loop env user_input w)"

definition run_start :: "'os world \<Rightarrow> 'os run_state" where
  "run_start w =
     \<lparr>world = w, gateway_calls = 0, log_calls = [], history_dict = [], messages = [],
      output_local = []\<rparr>"

text \<open>
  What a tool call returns when its dispatch succeeds: \<open>None\<close> when the name is not
  in the registry, when \<^verbatim>\<open>json.loads\<close> raises on its arguments, or when the call of the
  function raises.
\<close>

definition call_response :: "'os env \<Rightarrow> tool_call \<Rightarrow> 'os world \<Rightarrow> pyval option" where
  "call_response env tc w =
     (case available_functions (function_name tc) of
        None \<Rightarrow> None
      | Some f \<Rightarrow>
          (case json_loads env (arguments tc) of
             Inl e \<Rightarrow> None
           | Inr function_args \<Rightarrow>
               (case fst (call_function env (function_name tc) f function_args w) of
                  Inl e \<Rightarrow> None
                | Inr function_response \<Rightarrow> Some function_response)))"

text \<open>
  The tool messages of the calls of a batch that succeed, each call taken in the state
  in which the loop reaches it.
\<close>

fun succeeded_messages :: "'os env \<Rightarrow> tool_call list \<Rightarrow> 'os run_state \<Rightarrow> message list" where
  "succeeded_messages env [] st = []"
| "succeeded_messages env (tc # rest) st =
     (case call_response env tc (world st) of
        None \<Rightarrow> []
      | Some r \<Rightarrow> [Tool_message (call_id tc) (function_name tc) r])
     @ (case dispatch_tool_call env tc st of
          (Normal, st1) \<Rightarrow> succeeded_messages env rest st1
        | _ \<Rightarrow> [])"


section \<open>A concrete environment\<close>

text \<open>
  An environment to run the definitions on: the gateway is the parameter \<open>gw\<close>, the
  encoding and the digest are the identity, every operation on files and on the
  database succeeds except the write of the log, which always fails.
\<close>

definition demo_json_loads :: "string \<Rightarrow> py_exn + pyval" where
  \<open>demo_json_loads s =
     (if s = ''{}'' then Inr (PDict [])
      else if s = ''[]'' then Inr (PList [])
      else if s = ''{"path": "a.txt", "content": "hi"}''
        then Inr (PDict [(''path'', PStr ''a.txt''), (''content'', PStr ''hi'')])
      else if s = ''{"code_content": "x = 1"}''
        then Inr (PDict [(''code_content'', PStr ''x = 1'')])
      else if s = ''{"code_content": 7}''
        then Inr (PDict [(''code_content'', PInt 7)])
      else Inl (PyExn ''JSONDecodeError'' ''Expecting value''))\<close>

definition demo_env ::
  "(nat \<Rightarrow> message list \<Rightarrow> bool \<Rightarrow> py_exn + response) \<Rightarrow> unit env" where
  "demo_env gw =
     \<lparr>supports_function_calling = True,
      read_instructions = Inr ''Build the application.'',
      completion = gw,
      json_loads = demo_json_loads,
      binding_error = (\<lambda>fname v. fname @ ''() got unexpected arguments''),
      str_encode = (\<lambda>s. Inr s),
      sha256_hexdigest = (\<lambda>s. s),
      py_repr = (\<lambda>v. ''<value>''),
      format_exc = (\<lambda>e. ''Traceback (most recent call last): '' @ exn_type e),
      ROUTES_DIR = ''/app/routes'',
      os_path_exists = (\<lambda>p x. Inr False),
      os_makedirs = (\<lambda>p x. (None, x)),
      open_write = (\<lambda>excl p c x. (None, x)),
      open_read = (\<lambda>p x. Inr ''pass''),
      dump_log = (\<lambda>h x. (Some (PyExn ''OSError'' ''No space left on device''), x)),
      sqlite_execute = (\<lambda>statement x. None),
      sqlite_text = (\<lambda>v. Inr ''?''),
      ast_function_info = (\<lambda>s. Inr (''Unknown'', ''No description available''))\<rparr>"

definition gateway_down :: "nat \<Rightarrow> message list \<Rightarrow> bool \<Rightarrow> py_exn + response" where
  "gateway_down n ms with_tools = Inl (PyExn ''APIConnectionError'' ''Connection error.'')"

definition demo_world :: "unit world" where
  "demo_world = \<lparr>progress = progress_init, codes = [], os = (), observed = []\<rparr>"

definition demo_state :: "unit run_state" where
  "demo_state =
     \<lparr>world = demo_world, gateway_calls = 0, log_calls = [],
      history_dict = [new_iteration_record 1], messages = [], output_local = []\<rparr>"

text \<open>Tool calls to run the dispatch on.\<close>

definition demo_call_bad_json :: tool_call where
  "demo_call_bad_json = \<lparr>call_id = ''call_2'', function_name = ''store_code'', arguments = ''{''\<rparr>"

definition demo_call_store_int :: tool_call where
  \<open>demo_call_store_int =
     \<lparr>call_id = ''call_3'', function_name = ''store_code'',
      arguments = ''{"code_content": 7}''\<rparr>\<close>

definition demo_call_store :: tool_call where
  \<open>demo_call_store =
     \<lparr>call_id = ''call_4'', function_name = ''store_code'',
      arguments = ''{"code_content": "x = 1"}''\<rparr>\<close>

definition demo_call_deploy :: tool_call where
  "demo_call_deploy = \<lparr>call_id = ''call_1'', function_name = ''deploy'', arguments = ''{}''\<rparr>"





text \<open>A gateway whose responses have no choices.\<close>

definition gateway_empty_choices :: "nat \<Rightarrow> message list \<Rightarrow> bool \<Rightarrow> py_exn + response" where
  "gateway_empty_choices n ms with_tools = Inr \<lparr>choices = [], error_attr = None\<rparr>"

text \<open>
  A world whose budget is two passes.
\<close>

definition demo_world_two :: "unit world" where
  "demo_world_two = demo_world\<lparr>progress := progress_init\<lparr>max_iterations := 2\<rparr>\<rparr>"

text \<open>
  An environment whose file system is one flag: whether \<^verbatim>\<open>codes.db\<close> is still the
  database that \<^verbatim>\<open>init_db\<close> made. \<^verbatim>\<open>open\<close> with mode \<^verbatim>\<open>'x'\<close> finds the file there, a write to
  it clears the flag, and \<^verbatim>\<open>sqlite3\<close> raises from then on. The character \<open>0xFF\<close> stands
  for a lone surrogate: \<^verbatim>\<open>encode\<close> raises on a string that has one.
\<close>

definition disk_env :: "bool env" where
  "disk_env =
     \<lparr>supports_function_calling = True,
      read_instructions = Inr ''Build the application.'',
      completion = gateway_down,
      json_loads = demo_json_loads,
      binding_error = (\<lambda>fname v. fname @ ''() got unexpected arguments''),
      str_encode = (\<lambda>s. if CHR 0xFF \<in> set s
                          then Inl (PyExn ''UnicodeEncodeError'' ''surrogates not allowed'')
                          else Inr s),
      sha256_hexdigest = (\<lambda>s. s),
      py_repr = (\<lambda>v. ''<value>''),
      format_exc = (\<lambda>e. ''Traceback (most recent call last): '' @ exn_type e),
      ROUTES_DIR = ''/app/routes'',
      os_path_exists = (\<lambda>p x. Inr False),
      os_makedirs = (\<lambda>p x. (None, x)),
      open_write = (\<lambda>excl p c x.
                      if p = PStr ''codes.db'' then
                        (if excl then (Some (PyExn ''FileExistsError'' ''File exists''), x)
                         else (None, False))
                      else (None, x)),
      open_read = (\<lambda>p x. Inr ''pass''),
      dump_log = (\<lambda>h x. (None, x)),
      sqlite_execute = (\<lambda>statement x.
                          if x then None
                          else Some (PyExn ''DatabaseError'' ''file is not a database'')),
      sqlite_text = (\<lambda>v. Inr ''?''),
      ast_function_info = (\<lambda>s. Inr (''Unknown'', ''No description available''))\<rparr>"

definition disk_world :: "bool world" where
  "disk_world = \<lparr>progress = progress_init, codes = [], os = True, observed = []\<rparr>"

section \<open>What a pass leaves unchanged\<close>

lemma upd_last_snoc [simp]: "upd_last f (xs @ [x]) = xs @ [f x]"
  by (simp add: upd_last_def)

lemma length_upd_last [simp]: "length (upd_last f xs) = length xs"
  by (simp add: upd_last_def)

lemma butlast_upd_last [simp]: "butlast (upd_last f xs) = butlast xs"
  by (simp add: upd_last_def)

lemma map_index_upd_last:
  assumes "\<And>c. index (f c) = index c"
  shows "map index (upd_last f xs) = map index xs"
proof (cases "xs = []")
  case True
  then show ?thesis by (simp add: upd_last_def)
next
  case False
  then have "butlast xs @ [last xs] = xs" by simp
  then have "map index xs = map index (butlast xs) @ [index (last xs)]"
    by (metis list.simps(8,9) map_append)
  with False assms show ?thesis by (simp add: upd_last_def)
qed

lemma prog_keeps_refl [simp]: "prog_keeps p p"
  by (simp add: prog_keeps_def)

lemma prog_keeps_trans: "prog_keeps p q \<Longrightarrow> prog_keeps q r \<Longrightarrow> prog_keeps p r"
  by (auto simp: prog_keeps_def)

lemma world_keeps_refl [simp]: "world_keeps w w"
  by (simp add: world_keeps_def)

lemma world_keeps_trans:
  assumes "world_keeps w w1" and "world_keeps w1 w2"
  shows "world_keeps w w2"
proof -
  from assms(1) obtain ps where ps: "observed w1 = observed w @ ps"
    "list_all (prog_keeps (progress w)) ps" and p1: "prog_keeps (progress w) (progress w1)"
    by (auto simp: world_keeps_def)
  from assms(2) obtain qs where qs: "observed w2 = observed w1 @ qs"
    "list_all (prog_keeps (progress w1)) qs" and p2: "prog_keeps (progress w1) (progress w2)"
    by (auto simp: world_keeps_def)
  have "list_all (prog_keeps (progress w)) qs"
    using qs(2) p1 by (auto simp: list_all_iff intro: prog_keeps_trans)
  with ps qs p1 p2 show ?thesis
    unfolding world_keeps_def
    by (auto intro: prog_keeps_trans)
qed

lemma world_keeps_os [simp]: "world_keeps w (w\<lparr>os := x\<rparr>)"
  by (simp add: world_keeps_def)

lemma world_keeps_codes [simp]: "world_keeps w (w\<lparr>codes := x\<rparr>)"
  by (simp add: world_keeps_def)

lemma world_keeps_set_progress:
  "prog_keeps (progress w) (f (progress w)) \<Longrightarrow> world_keeps w (set_progress f w)"
  by (simp add: world_keeps_def set_progress_def Let_def)

lemma create_file_keeps: "create_file env p c w = (r, w1) \<Longrightarrow> world_keeps w w1"
  by (auto simp: create_file_def split: prod.splits option.splits if_splits)

lemma create_directory_keeps: "create_directory env p w = (r, w1) \<Longrightarrow> world_keeps w w1"
  by (auto simp: create_directory_def Let_def
           split: prod.splits option.splits sum.splits bool.splits if_splits
           dest!: create_file_keeps intro: world_keeps_trans [OF world_keeps_os])

lemma update_file_keeps: "update_file env p c w = (r, w1) \<Longrightarrow> world_keeps w w1"
  by (auto simp: update_file_def split: prod.splits option.splits)

lemma fetch_code_keeps: "fetch_code env p w = (r, w1) \<Longrightarrow> world_keeps w w1"
  by (auto simp: fetch_code_def split: sum.splits)

lemma task_completed_keeps: "task_completed w = (r, w1) \<Longrightarrow> world_keeps w w1"
  by (auto simp: task_completed_def world_keeps_def set_progress_def Let_def prog_keeps_def)

lemma store_code_keeps: "store_code env c w = (r, w1) \<Longrightarrow> world_keeps w w1"
  by (auto simp: store_code_def split: pyval.splits sum.splits option.splits)

lemma retrieve_code_keeps: "retrieve_code env c w = (r, w1) \<Longrightarrow> world_keeps w w1"
  by (auto simp: retrieve_code_def split: pyval.splits sum.splits option.splits)

lemma list_all_functions_keeps: "list_all_functions env w = (r, w1) \<Longrightarrow> world_keeps w w1"
  by (auto simp: list_all_functions_def split: option.splits)

lemma call_body_keeps: "call_body env f vs w = (r, w1) \<Longrightarrow> world_keeps w w1"
  by (induction env f vs w rule: call_body.induct)
     (auto dest: create_file_keeps create_directory_keeps update_file_keeps fetch_code_keeps
        task_completed_keeps store_code_keeps retrieve_code_keeps list_all_functions_keeps)

lemma call_function_keeps: "call_function env n f a w = (r, w1) \<Longrightarrow> world_keeps w w1"
  by (auto simp: call_function_def split: sum.splits dest: call_body_keeps)

lemmas st_defs =
  upd_current_def add_error_def add_output_def add_message_def write_progress_def

lemma pass_keeps_refl [simp]: "pass_keeps st st"
  by (simp add: pass_keeps_def)

lemma pass_keeps_trans: "pass_keeps st st1 \<Longrightarrow> pass_keeps st1 st2 \<Longrightarrow> pass_keeps st st2"
  by (auto simp: pass_keeps_def intro: world_keeps_trans)

lemma pass_keeps_upd_current:
  "(\<And>c. index (f c) = index c) \<Longrightarrow> pass_keeps st (upd_current f st)"
  by (simp add: pass_keeps_def upd_current_def map_index_upd_last)

lemma pass_keeps_add_error [simp]: "pass_keeps st (add_error e st)"
  by (simp add: add_error_def pass_keeps_upd_current)

lemma add_error_fields:
  "log_calls (add_error e st) = log_calls st"
  "world (add_error e st) = world st"
  "messages (add_error e st) = messages st"
  "gateway_calls (add_error e st) = gateway_calls st"
  "output_local (add_error e st) = output_local st"
  by (simp_all add: add_error_def upd_current_def)

lemma pass_keeps_add_output [simp]: "pass_keeps st (add_output s st)"
  by (simp add: pass_keeps_def add_output_def)

lemma pass_keeps_add_message [simp]: "pass_keeps st (add_message m st)"
  by (simp add: pass_keeps_def add_message_def)

lemma pass_keeps_world:
  "world_keeps (world st) w1 \<Longrightarrow> pass_keeps st (st\<lparr>world := w1\<rparr>)"
  by (simp add: pass_keeps_def)

lemma pass_keeps_write_progress:
  "prog_keeps (progress (world st)) (f (progress (world st))) \<Longrightarrow>
     pass_keeps st (write_progress f st)"
  by (simp add: write_progress_def pass_keeps_world world_keeps_set_progress)

lemma log_to_file_result:
  "log_to_file env h st = (r, st1) \<Longrightarrow>
     r = None \<and> pass_keeps st st1 \<and> log_calls st1 = log_calls st @ [h]
     \<and> history_dict st1 = history_dict st \<and> messages st1 = messages st
     \<and> gateway_calls st1 = gateway_calls st \<and> output_local st1 = output_local st"
  by (auto simp: log_to_file_def Let_def pass_keeps_def split: prod.splits option.splits)

lemma record_tool_result_keeps [simp]: "pass_keeps st (record_tool_result env tc r st)"
proof -
  let ?f = "\<lambda>c. c\<lparr>tool_results := tool_results c @ [\<lparr>tool = function_name tc, result = r\<rparr>]\<rparr>"
  have a: "pass_keeps st (upd_current ?f st)"
    by (rule pass_keeps_upd_current) simp
  show ?thesis
    unfolding record_tool_result_def Let_def
    by (rule pass_keeps_trans [OF a], rule pass_keeps_trans [OF pass_keeps_add_output],
        rule pass_keeps_add_message)
qed

lemma record_tool_result_fields [simp]:
  "log_calls (record_tool_result env tc r st) = log_calls st"
  "gateway_calls (record_tool_result env tc r st) = gateway_calls st"
  "world (record_tool_result env tc r st) = world st"
  "messages (record_tool_result env tc r st)
     = messages st @ [Tool_message (call_id tc) (function_name tc) r]"
  by (simp_all add: record_tool_result_def Let_def st_defs)

lemma mark_completed_keeps [simp]: "pass_keeps st (mark_completed st)"
proof -
  have a: "pass_keeps s (write_progress (\<lambda>p. p\<lparr>status := ''completed''\<rparr>) s)" for s :: "'a run_state"
    by (rule pass_keeps_write_progress) (simp add: prog_keeps_def)
  have b: "pass_keeps s (write_progress (\<lambda>p. p\<lparr>completed := True\<rparr>) s)" for s :: "'a run_state"
    by (rule pass_keeps_write_progress) (simp add: prog_keeps_def)
  have c: "pass_keeps s (write_progress (\<lambda>p. p\<lparr>output := x\<rparr>) s)" for s :: "'a run_state" and x
    by (rule pass_keeps_write_progress) (simp add: prog_keeps_def)
  show ?thesis
    unfolding mark_completed_def Let_def
    by (rule pass_keeps_trans [OF a], rule pass_keeps_trans [OF b],
        rule pass_keeps_trans [OF pass_keeps_add_output], rule c)
qed

lemma mark_completed_fields [simp]:
  "history_dict (mark_completed st) = history_dict st"
  "messages (mark_completed st) = messages st"
  "gateway_calls (mark_completed st) = gateway_calls st"
  "log_calls (mark_completed st) = log_calls st"
  by (simp_all add: mark_completed_def Let_def st_defs)

lemma signal_completion_result:
  assumes "signal_completion env st = (fl, st1)"
  shows "fl = Return_output \<and> pass_keeps st st1
     \<and> log_calls st1 = log_calls st @ [history_dict st1]
     \<and> history_dict st1 = history_dict st \<and> messages st1 = messages st
     \<and> gateway_calls st1 = gateway_calls st"
proof -
  let ?st4 = "mark_completed st"
  obtain r st5 where l: "log_to_file env (history_dict ?st4) ?st4 = (r, st5)"
    by (cases "log_to_file env (history_dict ?st4) ?st4")
  note f = log_to_file_result [OF l]
  from f have r: "r = None" by simp
  from assms l r have e: "fl = Return_output" "st1 = st5"
    by (simp_all add: signal_completion_def Let_def)
  have k: "pass_keeps st st5"
    by (rule pass_keeps_trans [OF mark_completed_keeps]) (use f in simp)
  from f e k show ?thesis by simp
qed

lemma try_tool_call_keeps:
  assumes "try_tool_call env tc f st = (fl, st1)"
  shows "pass_keeps st st1
     \<and> log_calls st1 = log_calls st @ (if fl = Return_output then [history_dict st1] else [])"
proof (cases "json_loads env (arguments tc)")
  case (Inl e)
  with assms show ?thesis by (auto simp: try_tool_call_def)
next
  case (Inr args)
  obtain r w1 where c: "call_function env (function_name tc) f args (world st) = (r, w1)"
    by (cases "call_function env (function_name tc) f args (world st)")
  have b: "pass_keeps st (st\<lparr>world := w1\<rparr>)"
    using c by (auto intro: pass_keeps_world dest: call_function_keeps)
  show ?thesis
  proof (cases r)
    case (Inl e)
    with assms Inr c b show ?thesis by (auto simp: try_tool_call_def)
  next
    case r: (Inr v)
    let ?st2 = "record_tool_result env tc v (st\<lparr>world := w1\<rparr>)"
    have k: "pass_keeps st ?st2"
      by (rule pass_keeps_trans [OF b record_tool_result_keeps])
    show ?thesis
    proof (cases "function_name tc = ''task_completed''")
      case True
      with assms Inr c r have s: "signal_completion env ?st2 = (fl, st1)"
        by (simp add: try_tool_call_def)
      note r = signal_completion_result [OF s]
      have "pass_keeps st st1"
        by (rule pass_keeps_trans [OF k]) (use r in simp)
      with r show ?thesis by simp
    next
      case False
      with assms Inr c r k show ?thesis
        by (auto simp: try_tool_call_def)
    qed
  qed
qed

lemma dispatch_tool_call_keeps:
  assumes "dispatch_tool_call env tc st = (fl, st1)"
  shows "pass_keeps st st1
     \<and> log_calls st1 = log_calls st @ (if fl = Return_output then [history_dict st1] else [])"
proof (cases "available_functions (function_name tc)")
  case None
  with assms have "st1 = add_error (not_available_error (function_name tc)) st"
    and "fl = Normal"
    by (auto simp: dispatch_tool_call_def)
  then show ?thesis
    by (simp add: add_error_fields)
next
  case (Some f)
  obtain fl0 st0 where t: "try_tool_call env tc f st = (fl0, st0)"
    by (cases "try_tool_call env tc f st")
  note k = try_tool_call_keeps [OF t]
  show ?thesis
  proof (cases fl0)
    case (Raise e)
    with assms Some t k have "st1 = add_error (tool_error_entry env (function_name tc) e) st0"
      and "fl = Normal"
      by (auto simp: dispatch_tool_call_def)
    moreover have "pass_keeps st (add_error (tool_error_entry env (function_name tc) e) st0)"
      by (rule pass_keeps_trans [OF _ pass_keeps_add_error]) (use k in simp)
    ultimately show ?thesis
      using k Raise by (simp add: add_error_fields)
  qed (use assms Some t k in \<open>auto simp: dispatch_tool_call_def\<close>)
qed

lemma dispatch_tool_calls_keeps:
  "dispatch_tool_calls env tcs st = (fl, st1) \<Longrightarrow>
     pass_keeps st st1
     \<and> log_calls st1 = log_calls st @ (if fl = Return_output then [history_dict st1] else [])"
proof (induction tcs arbitrary: st)
  case Nil
  then show ?case by auto
next
  case (Cons tc rest)
  obtain fl0 st0 where d: "dispatch_tool_call env tc st = (fl0, st0)"
    by (cases "dispatch_tool_call env tc st")
  note k = dispatch_tool_call_keeps [OF d]
  from dispatch_tool_call_flow [OF d] show ?case
  proof
    assume n: "fl0 = Normal"
    with Cons.prems d have "dispatch_tool_calls env rest st0 = (fl, st1)" by simp
    note i = Cons.IH [OF this]
    have "pass_keeps st st1"
      by (rule pass_keeps_trans [of st st0]) (use k i in simp_all)
    with i k n show ?thesis by simp
  next
    assume "fl0 = Return_output"
    with Cons.prems d k show ?thesis by auto
  qed
qed

lemma pass_keeps_snoc:
  assumes "pass_keeps st st1" and "history_dict st = h @ [c]"
  shows "\<exists>r. history_dict st1 = h @ [r] \<and> index r = index c"
proof -
  from assms have b: "butlast (history_dict st1) = h"
    and m: "map index (history_dict st1) = map index h @ [index c]"
    by (simp_all add: pass_keeps_def)
  from m have "history_dict st1 \<noteq> []" by auto
  then have e: "history_dict st1 = h @ [last (history_dict st1)]"
    using b by (metis append_butlast_last_id)
  with m have "map index h @ [index (last (history_dict st1))] = map index h @ [index c]"
    by (metis list.simps(8,9) map_append)
  then have "index (last (history_dict st1)) = index c" by simp
  with e show ?thesis by blast
qed

lemma call_completion_result:
  "call_completion env t st = (r, st1) \<Longrightarrow>
     pass_keeps st st1 \<and> log_calls st1 = log_calls st
     \<and> history_dict st1 = history_dict st \<and> messages st1 = messages st
     \<and> gateway_calls st1 = Suc (gateway_calls st) \<and> world st1 = world st"
  by (auto simp: call_completion_def pass_keeps_def)

lemma second_round_keeps:
  assumes "second_round env st = (fl, st1)"
  shows "pass_keeps st st1 \<and> log_calls st1 = log_calls st
     \<and> fl \<noteq> Return_output \<and> fl \<noteq> Continue_loop"
proof -
  obtain r st0 where c: "call_completion env False st = (r, st0)"
    by (cases "call_completion env False st")
  note k = call_completion_result [OF c]
  show ?thesis
  proof (cases r)
    case (Inl e)
    with assms c k show ?thesis by (auto simp: second_round_def)
  next
    case (Inr resp)
    show ?thesis
    proof (cases "\<exists>m cs. choices resp = Some m # cs")
      case True
      then obtain m cs where ch: "choices resp = Some m # cs" by blast
      define cv where "cv = (case content m of None \<Rightarrow> [] | Some c \<Rightarrow> c)"
      define sa where "sa = upd_current (\<lambda>c. c\<lparr>llm_responses := llm_responses c @ [cv]\<rparr>) st0"
      define sb where "sb = add_output (''<strong>LLM Response:</strong>'' @ nl @ ''<p>''
                                     @ cv @ ''</p>'' @ nl) sa"
      from assms c Inr ch have e: "fl = Normal" "st1 = add_message (Response_message m) sb"
        by (simp_all add: second_round_def Let_def cv_def sa_def sb_def)
      have "pass_keeps st0 sa" unfolding sa_def by (rule pass_keeps_upd_current) simp
      moreover have "pass_keeps sa sb" unfolding sb_def by simp
      moreover have "pass_keeps sb st1" unfolding e by simp
      ultimately have "pass_keeps st st1"
        using k by (blast intro: pass_keeps_trans)
      moreover have "log_calls st1 = log_calls st"
        using k by (simp add: e sb_def sa_def st_defs)
      ultimately show ?thesis using e by simp
    next
      case False
      define ev where "ev = (case error_attr resp of Some v \<Rightarrow> v
                              | None \<Rightarrow> PStr ''Unknown error in second LLM response.'')"
      from False assms c Inr have e: "fl = Normal"
        "st1 = add_error \<lparr>action = ''second_llm_completion'', error = ev, traceback = None\<rparr> st0"
        by (auto simp: second_round_def Let_def ev_def split: list.splits option.splits)
      have "pass_keeps st st1"
        unfolding e by (rule pass_keeps_trans [OF _ pass_keeps_add_error]) (use k in simp)
      with e k show ?thesis by (simp add: add_error_fields)
    qed
  qed
qed

lemma tool_calls_branch_keeps:
  assumes "tool_calls_branch env m cv st = (fl, st1)"
  shows "pass_keeps st st1
     \<and> log_calls st1 = log_calls st @ (if fl = Return_output then [history_dict st1] else [])
     \<and> fl \<noteq> Continue_loop"
proof (cases "\<exists>tc tcs. tool_calls m = Some (tc # tcs)")
  case True
  then obtain tc tcs where t: "tool_calls m = Some (tc # tcs)" by blast
  define sa where "sa = add_message (Response_message m)
      (add_output (''<strong>Tool Call:</strong>'' @ nl @ ''<p>'' @ cv @ ''</p>'' @ nl) st)"
  have ka: "pass_keeps st sa" unfolding sa_def
    by (rule pass_keeps_trans [OF pass_keeps_add_output pass_keeps_add_message])
  have la: "log_calls sa = log_calls st" by (simp add: sa_def st_defs)
  obtain fl0 sb where d: "dispatch_tool_calls env (tc # tcs) sa = (fl0, sb)"
    by (cases "dispatch_tool_calls env (tc # tcs) sa")
  note kd = dispatch_tool_calls_keeps [OF d]
  have kb: "pass_keeps st sb"
    by (rule pass_keeps_trans [OF ka]) (use kd in simp)
  from dispatch_tool_calls_flow [OF d] show ?thesis
  proof
    assume n: "fl0 = Normal"
    with assms t d have s: "second_round env sb = (fl, st1)"
      by (simp add: tool_calls_branch_def Let_def sa_def del: dispatch_tool_calls.simps)
    note ks = second_round_keeps [OF s]
    have "pass_keeps st st1"
      by (rule pass_keeps_trans [OF kb]) (use ks in simp)
    with ks kd n la show ?thesis by simp
  next
    assume r: "fl0 = Return_output"
    with assms t d have "fl = Return_output" "st1 = sb"
      by (simp_all add: tool_calls_branch_def Let_def sa_def del: dispatch_tool_calls.simps)
    with kb kd r la show ?thesis by simp
  qed
next
  case False
  with assms have e: "fl = Normal" "st1 = add_message (Response_message m)
      (add_output (''<strong>LLM Response:</strong>'' @ nl @ ''<p>'' @ cv @ ''</p>'' @ nl) st)"
    by (auto simp: tool_calls_branch_def Let_def split: option.splits list.splits)
  have "pass_keeps st st1" unfolding e
    by (rule pass_keeps_trans [OF pass_keeps_add_output pass_keeps_add_message])
  with e show ?thesis by (simp add: st_defs)
qed

lemma process_message_keeps:
  assumes "process_message env i m st = (fl, st1)"
  shows "pass_keeps st st1
     \<and> log_calls st1 = log_calls st @ (if fl = Return_output then [history_dict st1] else [])
     \<and> fl \<noteq> Continue_loop"
proof -
  define cv where "cv = (case content m of None \<Rightarrow> [] | Some c \<Rightarrow> c)"
  define sa where "sa = add_output (nl @ ''<h2>Iteration '' @ py_str env (PInt (i + 1))
                            @ '':</h2>'' @ nl)
      (upd_current (\<lambda>c. c\<lparr>llm_responses := llm_responses c @ [cv]\<rparr>) st)"
  have ka: "pass_keeps st sa" unfolding sa_def
    by (rule pass_keeps_trans [OF pass_keeps_upd_current pass_keeps_add_output]) simp
  have la: "log_calls sa = log_calls st" by (simp add: sa_def st_defs)
  obtain fl0 sb where b: "tool_calls_branch env m cv sa = (fl0, sb)"
    by (cases "tool_calls_branch env m cv sa")
  note kb = tool_calls_branch_keeps [OF b]
  have k: "pass_keeps st sb"
    by (rule pass_keeps_trans [OF ka]) (use kb in simp)
  show ?thesis
  proof (cases "fl0 = Normal")
    case True
    with assms b have e: "fl = Normal"
      "st1 = write_progress (\<lambda>p. p\<lparr>output := output_local sb\<rparr>) sb"
      by (simp_all add: process_message_def Let_def cv_def sa_def)
    have "pass_keeps sb st1" unfolding e
      by (rule pass_keeps_write_progress) (simp add: prog_keeps_def)
    with k have "pass_keeps st st1" by (rule pass_keeps_trans)
    with e kb la True show ?thesis by (simp add: write_progress_def)
  next
    case False
    with assms b have "fl = fl0" "st1 = sb"
      by (auto simp: process_message_def Let_def cv_def sa_def split: flow.splits)
    with k kb la show ?thesis by simp
  qed
qed

lemma pass_body_keeps:
  assumes "pass_body env i st = (fl, i1, st1)"
  shows "pass_keeps st st1
     \<and> log_calls st1 = log_calls st
          @ (if fl = Return_output \<or> fl = Continue_loop then [history_dict st1] else [])"
proof -
  obtain r st0 where c: "call_completion env True st = (r, st0)"
    by (cases "call_completion env True st")
  note k = call_completion_result [OF c]
  show ?thesis
  proof (cases r)
    case (Inl e)
    with assms c k show ?thesis by (auto simp: pass_body_def)
  next
    case (Inr resp)
    show ?thesis
    proof (cases "choices resp")
      case Nil
      with assms c k Inr show ?thesis by (auto simp: pass_body_def)
    next
      case (Cons ch cs)
      show ?thesis
      proof (cases ch)
        case None
        define ev where "ev = (case error_attr resp of Some v \<Rightarrow> v | None \<Rightarrow> PStr ''Unknown error'')"
        define sa where "sa = add_error \<lparr>action = ''llm_completion'', error = ev, traceback = None\<rparr> st0"
        obtain lr sb where l: "log_to_file env (history_dict sa) sa = (lr, sb)"
          by (cases "log_to_file env (history_dict sa) sa")
        note kl = log_to_file_result [OF l]
        from assms c Inr Cons None l kl have e: "fl = Continue_loop" "st1 = sb"
          by (simp_all add: pass_body_def Let_def ev_def sa_def)
        have "pass_keeps st sa" unfolding sa_def
          by (rule pass_keeps_trans [OF _ pass_keeps_add_error]) (use k in simp)
        then have "pass_keeps st sb"
          by (rule pass_keeps_trans) (use kl in simp)
        with e kl k show ?thesis by (simp add: sa_def add_error_fields)
      next
        case (Some m)
        obtain fl0 sb where p: "process_message env i m st0 = (fl0, sb)"
          by (cases "process_message env i m st0")
        note kp = process_message_keeps [OF p]
        from assms c Inr Cons Some p have e: "fl = fl0" "st1 = sb"
          by (simp_all add: pass_body_def)
        have "pass_keeps st sb"
          by (rule pass_keeps_trans [of st st0]) (use k kp in simp_all)
        with e kp k show ?thesis by simp
      qed
    qed
  qed
qed

lemma end_of_pass_result:
  "end_of_pass env i st = (fl, i1, st1) \<Longrightarrow>
     fl = Normal \<and> i1 = i + 1 \<and> pass_keeps st st1
     \<and> log_calls st1 = log_calls st @ [history_dict st1]
     \<and> history_dict st1 = history_dict st \<and> messages st1 = messages st
     \<and> gateway_calls st1 = gateway_calls st"
  by (auto simp: end_of_pass_def split: prod.splits option.splits dest: log_to_file_result)

lemma loop_pass_result:
  assumes "loop_pass env i st = (fl, i1, st1)"
  shows "(fl = Normal \<and> i1 = i + 1 \<or> fl = Return_output \<and> i1 = i)
     \<and> (\<exists>r. history_dict st1 = history_dict st @ [r] \<and> index r = i + 1)
     \<and> log_calls st1 = log_calls st @ [history_dict st1]
     \<and> world_keeps (set_progress (\<lambda>p. p\<lparr>iteration := i + 1\<rparr>) (world st)) (world st1)"
proof -
  define sa where "sa = write_progress (\<lambda>p. p\<lparr>iteration := i + 1\<rparr>) st"
  define sb where "sb = sa\<lparr>history_dict := history_dict sa @ [new_iteration_record (i + 1)]\<rparr>"
  have hb: "history_dict sb = history_dict st @ [new_iteration_record (i + 1)]"
    and lb: "log_calls sb = log_calls st"
    and wb: "world sb = set_progress (\<lambda>p. p\<lparr>iteration := i + 1\<rparr>) (world st)"
    by (simp_all add: sb_def sa_def write_progress_def)
  obtain fl0 i0 sc where b: "pass_body env i sb = (fl0, i0, sc)"
    by (cases "pass_body env i sb") auto
  note kb = pass_body_keeps [OF b]
  note ib = pass_body_iteration [OF b]
  from kb have kc: "pass_keeps sb sc" by simp
  from pass_keeps_snoc [OF kc hb] obtain r where
    r: "history_dict sc = history_dict st @ [r]" "index r = i + 1"
    by (auto simp: new_iteration_record_def)
  from assms b have res: "(fl, i1, st1) =
      (case fl0 of
         Normal \<Rightarrow> end_of_pass env i0 sc
       | Raise e \<Rightarrow> end_of_pass env i0
           (add_error \<lparr>action = ''main_loop'', error = PStr (exn_str e),
                       traceback = Some (format_exc env e)\<rparr> sc)
       | Continue_loop \<Rightarrow> (Normal, i0, sc)
       | Return_output \<Rightarrow> (Return_output, i0, sc))"
    by (simp add: loop_pass_def Let_def sa_def [symmetric] sb_def [symmetric] split: flow.splits)
  show ?thesis
  proof (cases fl0)
    case Normal
    with res have e: "end_of_pass env i0 sc = (fl, i1, st1)" by simp
    note ke = end_of_pass_result [OF e]
    have "pass_keeps sb st1"
      by (rule pass_keeps_trans [OF kc]) (use ke in simp)
    then have "world_keeps (world sb) (world st1)" by (simp add: pass_keeps_def)
    with ke kb ib Normal r lb wb show ?thesis by simp
  next
    case (Raise x)
    define sd where "sd = add_error \<lparr>action = ''main_loop'', error = PStr (exn_str x),
                       traceback = Some (format_exc env x)\<rparr> sc"
    from Raise res have e: "end_of_pass env i0 sd = (fl, i1, st1)" by (simp add: sd_def)
    note ke = end_of_pass_result [OF e]
    have kd: "pass_keeps sb sd" unfolding sd_def
      by (rule pass_keeps_trans [OF kc pass_keeps_add_error])
    from pass_keeps_snoc [OF kd hb] obtain r' where
      r': "history_dict sd = history_dict st @ [r']" "index r' = i + 1"
      by (auto simp: new_iteration_record_def)
    have "pass_keeps sb st1"
      by (rule pass_keeps_trans [OF kd]) (use ke in simp)
    then have "world_keeps (world sb) (world st1)" by (simp add: pass_keeps_def)
    moreover have "log_calls sd = log_calls st"
      using kb Raise lb by (simp add: sd_def add_error_fields)
    ultimately show ?thesis using ke ib Raise r' wb by simp
  next
    case Continue_loop
    with res have e: "fl = Normal" "i1 = i0" "st1 = sc" by simp_all
    from kc have "world_keeps (world sb) (world sc)" by (simp add: pass_keeps_def)
    with e kb ib Continue_loop r lb wb show ?thesis by simp
  next
    case Return_output
    with res have e: "fl = Return_output" "i1 = i0" "st1 = sc" by simp_all
    from kc have "world_keeps (world sb) (world sc)" by (simp add: pass_keeps_def)
    with e kb ib Return_output r lb wb show ?thesis by simp
  qed
qed

section \<open>Invariants of the loop\<close>

lemma run_keeps_refl: "P (progress w) \<Longrightarrow> run_keeps P w w"
  by (simp add: run_keeps_def)

lemma run_keeps_trans:
  "run_keeps P w w1 \<Longrightarrow> run_keeps P w1 w2 \<Longrightarrow> run_keeps P w w2"
  by (auto simp: run_keeps_def)

lemma run_keeps_set_progress:
  "P (f (progress w)) \<Longrightarrow> run_keeps P w (set_progress f w)"
  by (simp add: run_keeps_def set_progress_def Let_def)

lemma run_keeps_world_keeps:
  assumes closed: "\<And>p q. P p \<Longrightarrow> prog_keeps p q \<Longrightarrow> P q"
    and "P (progress w)" and "world_keeps w w1"
  shows "run_keeps P w w1"
proof -
  from assms(3) obtain ps where ps: "observed w1 = observed w @ ps"
    "list_all (prog_keeps (progress w)) ps" "prog_keeps (progress w) (progress w1)"
    by (auto simp: world_keeps_def)
  from ps(2) assms(2) have "list_all P ps"
    by (auto simp: list_all_iff intro: closed)
  with ps closed [OF assms(2) ps(3)] show ?thesis
    by (auto simp: run_keeps_def)
qed

lemma loop_pass_keeps:
  assumes closed: "\<And>p q. P p \<Longrightarrow> prog_keeps p q \<Longrightarrow> P q"
    and header: "P ((progress (world st))\<lparr>iteration := i + 1\<rparr>)"
    and "loop_pass env i st = (fl, i1, st1)"
  shows "run_keeps P (world st) (world st1)"
proof -
  let ?w = "set_progress (\<lambda>p. p\<lparr>iteration := i + 1\<rparr>) (world st)"
  from loop_pass_result [OF assms(3)] have k: "world_keeps ?w (world st1)" by simp
  have a: "run_keeps P (world st) ?w"
    by (rule run_keeps_set_progress) (rule header)
  have pw: "P (progress ?w)" using header by (simp add: set_progress_def Let_def)
  have "run_keeps P ?w (world st1)"
  proof (rule run_keeps_world_keeps [of P])
    show "P q" if "P p" "prog_keeps p q" for p q using that by (rule closed)
  qed (rule pw, rule k)
  with a show ?thesis by (rule run_keeps_trans)
qed

lemma main_loop_keeps:
  assumes closed: "\<And>p q. P p \<Longrightarrow> prog_keeps p q \<Longrightarrow> P q"
  shows "(\<And>p j. P p \<Longrightarrow> j < M \<Longrightarrow> P (p\<lparr>iteration := j + 1\<rparr>)) \<Longrightarrow>
         P (progress (world st)) \<Longrightarrow> main_loop env M i st = (fl, i1, st1) \<Longrightarrow>
         run_keeps P (world st) (world st1)"
proof (induction env M i st rule: main_loop.induct)
  case (1 env M i st)
  note header = "1.prems"(1)
  show ?case
  proof (cases "i < M")
    case False
    with "1.prems" show ?thesis
      by (simp add: main_loop.simps [of env M i st] run_keeps_refl)
  next
    case True
    obtain fl0 i0 st0 where p: "loop_pass env i st = (fl0, i0, st0)"
      by (cases "loop_pass env i st") auto
    have k: "run_keeps P (world st) (world st0)"
    proof (rule loop_pass_keeps [of P, OF _ _ p])
      show "P q" if "P p" "prog_keeps p q" for p q using that by (rule closed)
      show "P ((progress (world st))\<lparr>iteration := i + 1\<rparr>)"
        using "1.prems"(2) True by (rule header)
    qed
    show ?thesis
    proof (cases "fl0 = Normal")
      case n: True
      with True p "1.prems" have m: "main_loop env M i0 st0 = (fl, i1, st1)"
        by (simp add: main_loop.simps [of env M i st])
      from k have q: "P (progress (world st0))" by (simp add: run_keeps_def)
      have "run_keeps P (world st0) (world st1)"
        using n by (intro "1.IH" [OF True p [symmetric] _ refl header q m]) simp_all
      with k show ?thesis by (rule run_keeps_trans)
    next
      case False
      with True p "1.prems" have "st1 = st0"
        by (auto simp: main_loop.simps [of env M i st] split: flow.splits)
      with k show ?thesis by simp
    qed
  qed
qed

lemma main_loop_flow:
  "main_loop env M i st = (fl, i1, st1) \<Longrightarrow>
     fl = Return_output \<or> fl = Normal \<and> M \<le> i1"
proof (induction env M i st rule: main_loop.induct)
  case (1 env M i st)
  show ?case
  proof (cases "i < M")
    case False
    with "1.prems" show ?thesis
      by (simp add: main_loop.simps [of env M i st])
  next
    case True
    obtain fl0 i0 st0 where p: "loop_pass env i st = (fl0, i0, st0)"
      by (cases "loop_pass env i st") auto
    from loop_pass_result [OF p] have "fl0 = Normal \<or> fl0 = Return_output" by auto
    then show ?thesis
    proof
      assume n: "fl0 = Normal"
      with True p "1.prems" have m: "main_loop env M i0 st0 = (fl, i1, st1)"
        by (simp add: main_loop.simps [of env M i st])
      from "1.IH" [OF True p [symmetric] _ refl m] n show ?thesis by simp
    next
      assume "fl0 = Return_output"
      with True p "1.prems" show ?thesis
        by (simp add: main_loop.simps [of env M i st])
    qed
  qed
qed

lemma loop_pass_hist:
  assumes "hist_inv st" and "int (length (history_dict st)) = i"
    and "loop_pass env i st = (fl, i1, st1)"
  shows "hist_inv st1 \<and> length (history_dict st1) = Suc (length (history_dict st))"
proof -
  let ?h = "history_dict st"
  let ?n = "length ?h"
  from loop_pass_result [OF assms(3)] obtain r where
    r: "history_dict st1 = ?h @ [r]" "index r = i + 1"
    and l: "log_calls st1 = log_calls st @ [history_dict st1]"
    by auto
  from assms(1) have hi: "map index ?h = map int [1..<Suc ?n]"
    and hl: "log_calls st = map (\<lambda>k. take (Suc k) ?h) [0..<?n]"
    by (simp_all add: hist_inv_def)
  have a: "map index (history_dict st1) = map int [1..<Suc (Suc ?n)]"
    using r hi assms(2) by simp
  have "map (\<lambda>k. take (Suc k) (?h @ [r])) [0..<?n] = map (\<lambda>k. take (Suc k) ?h) [0..<?n]"
    by (rule map_cong) auto
  then have b: "log_calls st1 = map (\<lambda>k. take (Suc k) (?h @ [r])) [0..<Suc ?n]"
    using l hl r by simp
  from a b r show ?thesis by (simp add: hist_inv_def)
qed

lemma main_loop_hist:
  "hist_inv st \<Longrightarrow> int (length (history_dict st)) = i \<Longrightarrow>
   main_loop env M i st = (fl, i1, st1) \<Longrightarrow>
     hist_inv st1 \<and> int (length (history_dict st1)) \<le> max i M"
proof (induction env M i st rule: main_loop.induct)
  case (1 env M i st)
  show ?case
  proof (cases "i < M")
    case False
    with "1.prems" show ?thesis
      by (simp add: main_loop.simps [of env M i st])
  next
    case True
    obtain fl0 i0 st0 where p: "loop_pass env i st = (fl0, i0, st0)"
      by (cases "loop_pass env i st") auto
    note h = loop_pass_hist [OF "1.prems"(1,2) p]
    from loop_pass_result [OF p]
    have "fl0 = Normal \<and> i0 = i + 1 \<or> fl0 = Return_output" by auto
    then show ?thesis
    proof
      assume n: "fl0 = Normal \<and> i0 = i + 1"
      with True p "1.prems" have m: "main_loop env M i0 st0 = (fl, i1, st1)"
        by (simp add: main_loop.simps [of env M i st])
      from h n "1.prems"(2) have "int (length (history_dict st0)) = i0" by simp
      from "1.IH" [OF True p [symmetric] _ refl _ this m] n h True show ?thesis by simp
    next
      assume "fl0 = Return_output"
      with True p "1.prems" have "st1 = st0"
        by (simp add: main_loop.simps [of env M i st])
      with h True "1.prems"(2) show ?thesis by simp
    qed
  qed
qed

lemma run_final_cases:
  obtains
    (precheck) "\<not> supports_function_calling env"
      "run_main_loop env u w = (Inr ''Model does not support function calling.'',
         write_progress (\<lambda>p. p\<lparr>completed := True\<rparr>)
           (write_progress (\<lambda>p. p\<lparr>output := ''Model does not support function calling.''\<rparr>)
              (write_progress (\<lambda>p. p\<lparr>status := ''error''\<rparr>) (run_start w))))"
  | (no_instructions) e where "supports_function_calling env" "read_instructions env = Inl e"
      "run_main_loop env u w = (Inl e, run_start w)"
  | (returned) ms i st where "supports_function_calling env"
      "main_loop env (max_iterations (progress w)) 0 ((run_start w)\<lparr>messages := ms\<rparr>)
         = (Return_output, i, st)"
      "run_main_loop env u w = (Inr (output_local st), st)"
  | (exhausted) ms i st where "supports_function_calling env"
      "main_loop env (max_iterations (progress w)) 0 ((run_start w)\<lparr>messages := ms\<rparr>)
         = (Normal, i, st)"
      "max_iterations (progress w) \<le> i"
      "run_main_loop env u w =
         (Inr (output_local st),
          write_progress (\<lambda>p. p\<lparr>status := ''completed''\<rparr>)
            (write_progress (\<lambda>p. p\<lparr>completed := True\<rparr>)
               (write_progress (\<lambda>p. p\<lparr>status := ''completed''\<rparr>) st)))"
proof (cases "supports_function_calling env")
  case False
  then show ?thesis
    by (intro precheck) (simp_all add: run_main_loop_def Let_def run_start_def)
next
  case s: True
  show ?thesis
  proof (cases "read_instructions env")
    case (Inl e)
    with s show ?thesis
      by (intro no_instructions [of e]) (simp_all add: run_main_loop_def Let_def run_start_def)
  next
    case (Inr ins)
    define ms where "ms = [Role_content ''system'' ins, Role_content ''user'' u,
       Role_content ''system'' (''History:'' @ nl @ initial_history_dump)]"
    obtain fl i st where m:
      "main_loop env (max_iterations (progress w)) 0 ((run_start w)\<lparr>messages := ms\<rparr>) = (fl, i, st)"
      by (cases "main_loop env (max_iterations (progress w)) 0 ((run_start w)\<lparr>messages := ms\<rparr>)") auto
    from main_loop_flow [OF m] show ?thesis
    proof
      assume r: "fl = Return_output"
      show ?thesis
        by (rule returned [of ms i st])
           (use s Inr m r in \<open>simp_all add: run_main_loop_def Let_def run_start_def ms_def\<close>)
    next
      assume n: "fl = Normal \<and> max_iterations (progress w) \<le> i"
      show ?thesis
        by (rule exhausted [of ms i st])
           (use s Inr m n in \<open>simp_all add: run_main_loop_def Let_def run_start_def ms_def
               write_progress_def\<close>)
    qed
  qed
qed

lemma run_start_hist [simp]: "hist_inv ((run_start w)\<lparr>messages := ms\<rparr>)"
  by (simp add: hist_inv_def run_start_def)

lemma hist_inv_write_progress [simp]: "hist_inv (write_progress f st) = hist_inv st"
  by (simp add: hist_inv_def write_progress_def)

lemma run_main_loop_hist:
  "hist_inv (run_final env u w)
   \<and> int (length (history_dict (run_final env u w))) \<le> max 0 (max_iterations (progress w))"
proof (cases rule: run_final_cases [of env u w])
  case precheck
  then show ?thesis
    by (simp add: run_final_def write_progress_def run_start_def hist_inv_def)
next
  case (no_instructions e)
  then show ?thesis
    by (simp add: run_final_def run_start_def hist_inv_def)
next
  case (returned ms i st)
  from main_loop_hist [OF run_start_hist _ returned(2)] returned(3)
  show ?thesis by (simp add: run_final_def run_start_def)
next
  case (exhausted ms i st)
  from main_loop_hist [OF run_start_hist _ exhausted(2)] exhausted(4)
  show ?thesis by (simp add: run_final_def run_start_def write_progress_def hist_inv_def)
qed

lemma run_keeps_write_progress:
  "P (f (progress (world st))) \<Longrightarrow> run_keeps P (world st) (world (write_progress f st))"
  by (simp add: write_progress_def run_keeps_set_progress)

lemma run_main_loop_keeps:
  assumes closed: "\<And>p q. P p \<Longrightarrow> prog_keeps p q \<Longrightarrow> P q"
    and header: "\<And>p j. P p \<Longrightarrow> j < max_iterations (progress w) \<Longrightarrow> P (p\<lparr>iteration := j + 1\<rparr>)"
    and "supports_function_calling env" and "P (progress w)"
  shows "run_keeps P w (world (run_final env u w))"
proof (cases rule: run_final_cases [of env u w])
  case precheck
  with assms(3) show ?thesis by simp
next
  case (no_instructions e)
  with assms(4) show ?thesis
    by (simp add: run_final_def run_start_def run_keeps_refl)
next
  case (returned ms i st)
  have "run_keeps P (world ((run_start w)\<lparr>messages := ms\<rparr>)) (world st)"
  proof (rule main_loop_keeps [of P, OF _ _ _ returned(2)])
    show "P q" if "P p" "prog_keeps p q" for p q using that by (rule closed)
    show "P (p\<lparr>iteration := j + 1\<rparr>)" if "P p" "j < max_iterations (progress w)" for p j
      using that by (rule header)
    show "P (progress (world ((run_start w)\<lparr>messages := ms\<rparr>)))"
      using assms(4) by (simp add: run_start_def)
  qed
  with returned(3) show ?thesis by (simp add: run_final_def run_start_def)
next
  case (exhausted ms i st)
  have k: "run_keeps P (world ((run_start w)\<lparr>messages := ms\<rparr>)) (world st)"
  proof (rule main_loop_keeps [of P, OF _ _ _ exhausted(2)])
    show "P q" if "P p" "prog_keeps p q" for p q using that by (rule closed)
    show "P (p\<lparr>iteration := j + 1\<rparr>)" if "P p" "j < max_iterations (progress w)" for p j
      using that by (rule header)
    show "P (progress (world ((run_start w)\<lparr>messages := ms\<rparr>)))"
      using assms(4) by (simp add: run_start_def)
  qed
  have c: "P (p\<lparr>status := ''completed''\<rparr>)" "P (p\<lparr>completed := True\<rparr>)" if "P p" for p
    using that by (auto intro: closed simp: prog_keeps_def)
  define sa where "sa = write_progress (\<lambda>p. p\<lparr>status := ''completed''\<rparr>) st"
  define sb where "sb = write_progress (\<lambda>p. p\<lparr>completed := True\<rparr>) sa"
  define sc where "sc = write_progress (\<lambda>p. p\<lparr>status := ''completed''\<rparr>) sb"
  from k have p0: "P (progress (world st))" by (simp add: run_keeps_def)
  have ka: "run_keeps P (world st) (world sa)"
    unfolding sa_def by (rule run_keeps_write_progress) (rule c [OF p0])
  then have pa: "P (progress (world sa))" by (simp add: run_keeps_def)
  have kb: "run_keeps P (world sa) (world sb)"
    unfolding sb_def by (rule run_keeps_write_progress) (rule c [OF pa])
  then have pb: "P (progress (world sb))" by (simp add: run_keeps_def)
  have kc: "run_keeps P (world sb) (world sc)"
    unfolding sc_def by (rule run_keeps_write_progress) (rule c [OF pb])
  have "run_keeps P (world ((run_start w)\<lparr>messages := ms\<rparr>)) (world sc)"
    by (rule run_keeps_trans [OF k], rule run_keeps_trans [OF ka], rule run_keeps_trans [OF kb],
        rule kc)
  with exhausted(4) show ?thesis
    by (simp add: run_final_def run_start_def sa_def sb_def sc_def)
qed

lemma add_error_snoc:
  "history_dict st = h @ [cur] \<Longrightarrow>
     add_error e st = st\<lparr>history_dict := h @ [cur\<lparr>errors := errors cur @ [e]\<rparr>]\<rparr>"
  by (simp add: add_error_def upd_current_def)

lemma signal_completion_messages:
  "messages (snd (signal_completion env st)) = messages st"
  by (cases "signal_completion env st") (auto dest: signal_completion_result)

lemma dispatch_tool_call_messages:
  "messages (snd (dispatch_tool_call env tc st))
     = messages st @ (case call_response env tc (world st) of
                        None \<Rightarrow> []
                      | Some r \<Rightarrow> [Tool_message (call_id tc) (function_name tc) r])"
proof (cases "available_functions (function_name tc)")
  case None
  then show ?thesis
    by (simp add: dispatch_tool_call_def call_response_def add_error_fields)
next
  case (Some f)
  show ?thesis
  proof (cases "json_loads env (arguments tc)")
    case (Inl e)
    with Some show ?thesis
      by (simp add: dispatch_tool_call_def try_tool_call_def call_response_def add_error_fields)
  next
    case (Inr args)
    obtain r w1 where c: "call_function env (function_name tc) f args (world st) = (r, w1)"
      by (cases "call_function env (function_name tc) f args (world st)")
    show ?thesis
    proof (cases r)
      case (Inl e)
      with Some Inr c show ?thesis
        by (simp add: dispatch_tool_call_def try_tool_call_def call_response_def add_error_fields)
    next
      case r: (Inr v)
      let ?s = "record_tool_result env tc v (st\<lparr>world := w1\<rparr>)"
      show ?thesis
      proof (cases "function_name tc = ''task_completed''")
        case True
        obtain fl st1 where s: "signal_completion env ?s = (fl, st1)"
          by (cases "signal_completion env ?s")
        from signal_completion_result [OF s] Some Inr c r True s show ?thesis
          by (simp add: dispatch_tool_call_def try_tool_call_def call_response_def)
      next
        case False
        with Some Inr c r show ?thesis
          by (simp add: dispatch_tool_call_def try_tool_call_def call_response_def)
      qed
    qed
  qed
qed

lemma dispatch_tool_calls_messages:
  "messages (snd (dispatch_tool_calls env tcs st)) = messages st @ succeeded_messages env tcs st"
proof (induction tcs arbitrary: st)
  case Nil
  show ?case by simp
next
  case (Cons tc rest)
  obtain fl0 st0 where d: "dispatch_tool_call env tc st = (fl0, st0)"
    by (cases "dispatch_tool_call env tc st")
  from dispatch_tool_call_messages [of env tc st] d
  have m: "messages st0 = messages st @ (case call_response env tc (world st) of
                        None \<Rightarrow> []
                      | Some r \<Rightarrow> [Tool_message (call_id tc) (function_name tc) r])"
    by simp
  from dispatch_tool_call_flow [OF d] show ?case
  proof
    assume "fl0 = Normal"
    with d m Cons.IH [of st0] show ?thesis by simp
  next
    assume "fl0 = Return_output"
    with d m show ?thesis by simp
  qed
qed

lemma succeeded_messages_tool:
  "list_all (\<lambda>m. role m = ''tool'' \<and> tool_call_id m \<in> call_id ` set tcs)
     (succeeded_messages env tcs st)"
proof (induction tcs arbitrary: st)
  case Nil
  show ?case by simp
next
  case (Cons tc rest)
  have "list_all (\<lambda>m. role m = ''tool'' \<and> tool_call_id m \<in> call_id ` set (tc # rest))
          (succeeded_messages env rest s)" for s
    using Cons.IH [of s] by (auto simp: list_all_iff)
  then show ?case
    by (auto split: option.splits prod.splits flow.splits)
qed










lemma loop_pass_no_message:
  assumes "completion env (gateway_calls st) (messages st) True = Inr resp"
    and "choices resp = None # cs"
  shows "\<exists>s. loop_pass env k st = (Normal, k + 1, s)
     \<and> history_dict s = history_dict st
         @ [(new_iteration_record (k + 1))
             \<lparr>errors := [\<lparr>action = ''llm_completion'',
                          error = (case error_attr resp of
                                     Some v \<Rightarrow> v | None \<Rightarrow> PStr ''Unknown error''),
                          traceback = None\<rparr>]\<rparr>]
     \<and> gateway_calls s = Suc (gateway_calls st)
     \<and> messages s = messages st
     \<and> output_local s = output_local st
     \<and> codes (world s) = codes (world st)
     \<and> log_calls s = log_calls st @ [history_dict s]"
  using assms
  by (simp add: loop_pass_def pass_body_def call_completion_def Let_def st_defs
        log_to_file_def new_iteration_record_def set_progress_def
        split: prod.splits option.splits)

lemma loop_pass_empty_choices:
  assumes "completion env (gateway_calls st) (messages st) True = Inr resp"
    and "choices resp = []"
  shows "\<exists>s. loop_pass env k st = (Normal, k + 1, s)
     \<and> history_dict s = history_dict st
         @ [(new_iteration_record (k + 1))
             \<lparr>errors := [\<lparr>action = ''main_loop'',
                          error = PStr ''list index out of range'',
                          traceback = Some (format_exc env
                             (PyExn ''IndexError'' ''list index out of range''))\<rparr>]\<rparr>]
     \<and> gateway_calls s = Suc (gateway_calls st)
     \<and> messages s = messages st
     \<and> log_calls s = log_calls st @ [history_dict s]"
  using assms
  by (simp add: loop_pass_def pass_body_def call_completion_def Let_def st_defs
        end_of_pass_def log_to_file_def new_iteration_record_def set_progress_def
        split: prod.splits option.splits)

lemma home_post_within_budget:
  "0 \<le> max_iterations (progress w) \<Longrightarrow>
     iteration (progress (home_post w)) \<le> max_iterations (progress (home_post w))"
  by (simp add: home_post_def set_progress_def Let_def)

lemma hist_inv_snapshot:
  assumes "hist_inv st" and "k < length (log_calls st)"
  shows "map index (log_calls st ! k) = map int [1..<Suc (Suc k)]"
proof -
  let ?h = "history_dict st"
  from assms have k: "k < length ?h" by (simp add: hist_inv_def)
  from assms(1) k have "log_calls st ! k = take (Suc k) ?h" by (simp add: hist_inv_def)
  then have "map index (log_calls st ! k) = take (Suc k) (map index ?h)"
    by (simp add: take_map)
  also from assms(1) have "\<dots> = take (Suc k) (map int [1..<Suc (length ?h)])"
    by (simp add: hist_inv_def)
  also have "\<dots> = map int (take (Suc k) [1..<Suc (length ?h)])" by (simp add: take_map)
  also have "take (Suc k) [1..<Suc (length ?h)] = [1..<Suc (Suc k)]"
  proof -
    have "take (Suc k) [1..<Suc (length ?h)] = [1..<1 + Suc k]"
      by (rule take_upt) (use k in simp)
    then show ?thesis by (simp del: upt_Suc)
  qed
  finally show ?thesis .
qed

section \<open>The table of codes\<close>

text \<open>
  \<^verbatim>\<open>INSERT OR REPLACE\<close> as a function on the rows, when \<^verbatim>\<open>store_code\<close> returns, and two
  runs in which it does not: the content has a lone surrogate, or the file of the
  database was overwritten by \<^verbatim>\<open>create_file\<close>. Storing a content again moves its row
  behind the others.
\<close>

lemma map_of_insert_or_replace:
  "map_of (insert_or_replace k v rows) = (map_of rows)(k \<mapsto> v)"
proof
  fix x
  have "map_of (filter (\<lambda>row. fst row \<noteq> k) rows) x = (if x = k then None else map_of rows x)"
    by (induction rows) auto
  then show "map_of (insert_or_replace k v rows) x = ((map_of rows)(k \<mapsto> v)) x"
    by (simp add: insert_or_replace_def map_add_def split: option.splits)
qed

lemma insert_or_replace_again:
  "insert_or_replace k v (insert_or_replace k v rows) = insert_or_replace k v rows"
  by (simp add: insert_or_replace_def)

lemma distinct_insert_or_replace:
  "distinct (map fst rows) \<Longrightarrow> distinct (map fst (insert_or_replace k v rows))"
  by (auto simp: insert_or_replace_def distinct_map_filter)

lemma store_code_returns:
  "store_code env (PStr c) w = (Inr v, w1) \<longleftrightarrow>
     (\<exists>i. code_id_of env c = Inr i
        \<and> sqlite_execute env
             ''INSERT OR REPLACE INTO codes (code_id, code_content) VALUES (?, ?)'' (os w) = None
        \<and> v = PStr (''Code stored with ID: '' @ i)
        \<and> w1 = w\<lparr>codes := insert_or_replace i c (codes w)\<rparr>)"
  by (auto simp: store_code_def split: sum.splits option.splits)

lemma store_code_lone_surrogate:
  "store_code disk_env (PStr [CHR ''d'', CHR 0xFF]) disk_world
     = (Inl (PyExn ''UnicodeEncodeError'' ''surrogates not allowed''), disk_world)"
  by (simp add: store_code_def code_id_of_def disk_env_def)

lemma store_code_after_overwrite:
  "create_file disk_env (PStr ''codes.db'') (PStr ''print(1)'') disk_world
     = (Inr (PStr ''Updated file: codes.db''), disk_world\<lparr>os := False\<rparr>)
   \<and> store_code disk_env (PStr ''x = 1'') (disk_world\<lparr>os := False\<rparr>)
       = (Inl (PyExn ''DatabaseError'' ''file is not a database''), disk_world\<lparr>os := False\<rparr>)
   \<and> store_code disk_env (PStr ''x = 1'') disk_world
       = (Inr (PStr ''Code stored with ID: x = 1''), disk_world\<lparr>codes := [(''x = 1'', ''x = 1'')]\<rparr>)"
  by (simp add: create_file_def store_code_def code_id_of_def disk_env_def disk_world_def
        py_str_def insert_or_replace_def)

lemma store_code_moves_row:
  "codes (snd (store_code disk_env (PStr ''a'')
            (snd (store_code disk_env (PStr ''b'')
               (snd (store_code disk_env (PStr ''a'') disk_world))))))
     = [(''b'', ''b''), (''a'', ''a'')]"
  by (simp add: store_code_def code_id_of_def disk_env_def disk_world_def insert_or_replace_def)

section \<open>The passes of the loop, counted\<close>

lemma main_loop_count:
  "int (length (history_dict st)) = i \<Longrightarrow> main_loop env M i st = (fl, n, s) \<Longrightarrow>
     (fl = Normal \<and> n = max i M \<and> int (length (history_dict s)) = n
      \<or> fl = Return_output \<and> i \<le> n \<and> n < M \<and> int (length (history_dict s)) = n + 1)
     \<and> length (log_calls s) + length (history_dict st)
         = length (history_dict s) + length (log_calls st)"
proof (induction env M i st rule: main_loop.induct)
  case (1 env M i st)
  show ?case
  proof (cases "i < M")
    case False
    with "1.prems" show ?thesis
      by (auto simp add: main_loop.simps [of env M i st])
  next
    case True
    obtain fl0 i0 st0 where p: "loop_pass env i st = (fl0, i0, st0)"
      by (cases "loop_pass env i st") auto
    from loop_pass_result [OF p] obtain r where
      f: "fl0 = Normal \<and> i0 = i + 1 \<or> fl0 = Return_output \<and> i0 = i"
      and h: "history_dict st0 = history_dict st @ [r]"
      and l: "log_calls st0 = log_calls st @ [history_dict st0]"
      by auto
    from f show ?thesis
    proof
      assume n: "fl0 = Normal \<and> i0 = i + 1"
      with True p "1.prems" have m: "main_loop env M i0 st0 = (fl, n, s)"
        by (simp add: main_loop.simps [of env M i st])
      from h n "1.prems"(1) have "int (length (history_dict st0)) = i0" by simp
      from "1.IH" [OF True p [symmetric] _ refl this m] n h l True show ?thesis
        by auto
    next
      assume "fl0 = Return_output \<and> i0 = i"
      with True p "1.prems" have "fl = Return_output" "n = i" "s = st0"
        by (simp_all add: main_loop.simps [of env M i st])
      with h l True "1.prems"(1) show ?thesis by simp
    qed
  qed
qed

lemma loop_pass_gateway_raises:
  assumes "completion env (gateway_calls st) (messages st) True = Inl e"
  shows "\<exists>s. loop_pass env k st = (Normal, k + 1, s)
     \<and> history_dict s = history_dict st
         @ [(new_iteration_record (k + 1))
             \<lparr>errors := [\<lparr>action = ''main_loop'', error = PStr (exn_str e),
                          traceback = Some (format_exc env e)\<rparr>]\<rparr>]
     \<and> gateway_calls s = Suc (gateway_calls st)
     \<and> messages s = messages st
     \<and> log_calls s = log_calls st @ [history_dict s]"
  using assms
  by (simp add: loop_pass_def pass_body_def call_completion_def Let_def st_defs
        end_of_pass_def log_to_file_def new_iteration_record_def set_progress_def
        split: prod.splits option.splits)

lemma run_final_history:
  assumes "supports_function_calling env" and "read_instructions env = Inr instructions"
  shows "history_dict (run_final env u w)
       = history_dict (snd (snd (main_loop env (max_iterations (progress w)) 0
           ((run_start w)\<lparr>messages :=
              [Role_content ''system'' instructions, Role_content ''user'' u,
               Role_content ''system'' (''History:'' @ nl @ initial_history_dump)]\<rparr>))))
     \<and> log_calls (run_final env u w)
       = log_calls (snd (snd (main_loop env (max_iterations (progress w)) 0
           ((run_start w)\<lparr>messages :=
              [Role_content ''system'' instructions, Role_content ''user'' u,
               Role_content ''system'' (''History:'' @ nl @ initial_history_dump)]\<rparr>))))"
  using assms
  by (simp add: run_final_def run_main_loop_def Let_def run_start_def write_progress_def
        split: prod.splits flow.splits)

section \<open>The claims\<close>



text \<open>
  C2. If \<^verbatim>\<open>progress["iteration"]\<close> is at most \<^verbatim>\<open>progress["max_iterations"]\<close> when a run
  starts, then it is so in every value that the run writes to \<^verbatim>\<open>progress\<close>, and in
  the value the run ends with; the run never changes \<^verbatim>\<open>max_iterations\<close>. The
  assignments of \<^verbatim>\<open>home\<close> before the run establish the hypothesis when
  \<^verbatim>\<open>max_iterations\<close> is not negative (\<open>home_post_within_budget\<close>).
\<close>

theorem progress_iteration_within_budget:
  assumes "iteration (progress w) \<le> max_iterations (progress w)"
  shows "iteration (progress (world (run_final env u w)))
           \<le> max_iterations (progress (world (run_final env u w)))
     \<and> max_iterations (progress (world (run_final env u w))) = max_iterations (progress w)
     \<and> (\<exists>ps. observed (world (run_final env u w)) = observed w @ ps
              \<and> list_all (\<lambda>p::progress. iteration p \<le> max_iterations p) ps)"
proof -
  define M where "M = max_iterations (progress w)"
  define P where "P = (\<lambda>p::progress. max_iterations p = M \<and> iteration p \<le> M)"
  have p: "P (progress w)" using assms by (simp add: P_def M_def)
  have q: "P r \<Longrightarrow> iteration r \<le> max_iterations r" for r by (simp add: P_def)
  have "run_keeps P w (world (run_final env u w))"
  proof (cases "supports_function_calling env")
    case True
    show ?thesis
    proof (rule run_main_loop_keeps [of P, OF _ _ True p])
      show "P q" if "P p" "prog_keeps p q" for p q
        using that by (simp add: P_def prog_keeps_def)
      show "P (p\<lparr>iteration := j + 1\<rparr>)" if "P p" "j < max_iterations (progress w)" for p j
        using that by (simp add: P_def M_def)
    qed
  next
    case False
    then show ?thesis
      using p
      by (simp add: run_final_def run_main_loop_def Let_def write_progress_def
            set_progress_def run_keeps_def P_def)
  qed
  then obtain ps where "P (progress (world (run_final env u w)))"
    "observed (world (run_final env u w)) = observed w @ ps" "list_all P ps"
    by (auto simp: run_keeps_def)
  then show ?thesis
    by (auto simp: P_def M_def list_all_iff)
qed

theorem progress_iteration_within_budget_witness:
  "iteration (progress (home_post demo_world)) \<le> max_iterations (progress (home_post demo_world))
   \<and> iteration (progress (world (run_final (demo_env gateway_down) ''a to-do list''
                                     (home_post demo_world)))) \<le> 50"
  using progress_iteration_within_budget
          [of "home_post demo_world" "demo_env gateway_down" "''a to-do list''"]
  by (simp add: home_post_def demo_world_def progress_init_def set_progress_def Let_def)

text \<open>
  C3. When a call of \<^verbatim>\<open>store_code\<close> on a content returns, the identifier in its result
  is the digest of the encoded content: it depends on the content alone, and every
  call on this content that returns, in whatever state, returns the same result. The
  call changes the table only, and the row of the identifier then holds the content.
  Storing the same content again at once returns the same result and leaves the world
  as it is; storing it again later leaves every identifier with the content it had.
  When the identifiers have no collision among the contents of a set, another content
  of the set gets another identifier and another result, and storing it leaves the
  row of the first as it was. (The call does not return when \<^verbatim>\<open>encode\<close> or \<^verbatim>\<open>sqlite3\<close>
  raises: \<open>store_code_lone_surrogate\<close>, \<open>store_code_after_overwrite\<close>.)
\<close>

theorem store_code_content_addressed:
  assumes "store_code env (PStr c) w = (Inr v, w1)"
  shows "\<exists>code_id. code_id_of env c = Inr code_id
     \<and> v = PStr (''Code stored with ID: '' @ code_id)
     \<and> w1 = w\<lparr>codes := insert_or_replace code_id c (codes w)\<rparr>
     \<and> map_of (codes w1) code_id = Some c
     \<and> (\<forall>w' v' w1'. store_code env (PStr c) w' = (Inr v', w1') \<longrightarrow> v' = v)
     \<and> store_code env (PStr c) w1 = (Inr v, w1)
     \<and> (\<forall>w' v' w1'. store_code env (PStr c) w' = (Inr v', w1') \<longrightarrow>
           map_of (codes w') code_id = Some c \<longrightarrow> map_of (codes w1') = map_of (codes w'))
     \<and> (\<forall>S c2 w' v2 w2.
           inj_on (code_id_of env) S \<longrightarrow> c \<in> S \<longrightarrow> c2 \<in> S \<longrightarrow> c2 \<noteq> c \<longrightarrow>
           store_code env (PStr c2) w' = (Inr v2, w2) \<longrightarrow>
             code_id_of env c2 \<noteq> Inr code_id \<and> v2 \<noteq> v
             \<and> map_of (codes w2) code_id = map_of (codes w') code_id)"
proof -
  let ?q = "''INSERT OR REPLACE INTO codes (code_id, code_content) VALUES (?, ?)''"
  from assms obtain i where i: "code_id_of env c = Inr i"
    and x: "sqlite_execute env ?q (os w) = None"
    and v: "v = PStr (''Code stored with ID: '' @ i)"
    and w1: "w1 = w\<lparr>codes := insert_or_replace i c (codes w)\<rparr>"
    unfolding store_code_returns by blast
  have a: "map_of (codes w1) i = Some c"
    by (simp add: w1 map_of_insert_or_replace)
  have b: "v' = v" if "store_code env (PStr c) w' = (Inr v', w1')" for w' v' w1'
    using that i v unfolding store_code_returns by auto
  have c: "store_code env (PStr c) w1 = (Inr v, w1)"
    unfolding store_code_returns
    by (rule exI [of _ i]) (simp add: i x v w1 insert_or_replace_again)
  have d: "map_of (codes w1') = map_of (codes w')"
    if "store_code env (PStr c) w' = (Inr v', w1')" "map_of (codes w') i = Some c"
    for w' v' w1'
  proof -
    from that(1) i have "w1' = w'\<lparr>codes := insert_or_replace i c (codes w')\<rparr>"
      unfolding store_code_returns by auto
    then have "map_of (codes w1') = (map_of (codes w'))(i \<mapsto> c)"
      by (simp add: map_of_insert_or_replace)
    with that(2) show ?thesis by (simp add: fun_upd_idem)
  qed
  have e: "code_id_of env c2 \<noteq> Inr i \<and> v2 \<noteq> v
      \<and> map_of (codes w2) i = map_of (codes w') i"
    if "inj_on (code_id_of env) S" "c \<in> S" "c2 \<in> S" "c2 \<noteq> c"
      "store_code env (PStr c2) w' = (Inr v2, w2)" for S c2 w' v2 w2
  proof -
    from that(5) obtain j where j: "code_id_of env c2 = Inr j"
      and v2: "v2 = PStr (''Code stored with ID: '' @ j)"
      and w2: "w2 = w'\<lparr>codes := insert_or_replace j c2 (codes w')\<rparr>"
      unfolding store_code_returns by blast
    from that(1-4) have "code_id_of env c2 \<noteq> code_id_of env c"
      by (auto dest: inj_onD)
    with i j have n: "j \<noteq> i" by simp
    with j v v2 w2 i show ?thesis by (simp add: map_of_insert_or_replace)
  qed
  show ?thesis
    apply (rule exI [of _ i])
    apply (intro conjI allI impI)
    apply (rule i)
    apply (rule v)
    apply (rule w1)
    apply (rule a)
    apply (erule b)
    apply (rule c)
    apply (erule (1) d)
    using e apply blast
    using e apply blast
    using e apply blast
    done
qed


theorem store_code_content_addressed_witness:
  "store_code (demo_env gateway_down) (PStr ''x = 1'') demo_world
     = (Inr (PStr ''Code stored with ID: x = 1''),
        demo_world\<lparr>codes := [(''x = 1'', ''x = 1'')]\<rparr>)
   \<and> store_code (demo_env gateway_down) (PStr ''x = 1'')
         (demo_world\<lparr>codes := [(''x = 1'', ''x = 1'')]\<rparr>)
     = (Inr (PStr ''Code stored with ID: x = 1''),
        demo_world\<lparr>codes := [(''x = 1'', ''x = 1'')]\<rparr>)
   \<and> inj_on (code_id_of (demo_env gateway_down)) {''x = 1'', ''y = 2''}
   \<and> store_code (demo_env gateway_down) (PStr ''y = 2'')
         (demo_world\<lparr>codes := [(''x = 1'', ''x = 1'')]\<rparr>)
     = (Inr (PStr ''Code stored with ID: y = 2''),
        demo_world\<lparr>codes := [(''x = 1'', ''x = 1''), (''y = 2'', ''y = 2'')]\<rparr>)
   \<and> code_id_of (demo_env gateway_down) ''y = 2'' \<noteq> Inr ''x = 1''
   \<and> map_of [(''x = 1'', ''x = 1''), (''y = 2'', ''y = 2'')] ''x = 1''
       = map_of [(''x = 1'', ''x = 1'')] ''x = 1''"
proof -
  let ?D = "demo_env gateway_down"
  let ?w1 = "demo_world\<lparr>codes := [(''x = 1'', ''x = 1'')]\<rparr>"
  let ?w2 = "demo_world\<lparr>codes := [(''x = 1'', ''x = 1''), (''y = 2'', ''y = 2'')]\<rparr>"
  have id: "code_id_of ?D s = Inr s" for s
    by (simp add: code_id_of_def demo_env_def)
  have h: "store_code ?D (PStr ''x = 1'') demo_world
      = (Inr (PStr ''Code stored with ID: x = 1''), ?w1)"
    by (simp add: store_code_def id)
       (simp add: demo_env_def demo_world_def insert_or_replace_def)
  have h2: "store_code ?D (PStr ''y = 2'') ?w1
      = (Inr (PStr ''Code stored with ID: y = 2''), ?w2)"
    by (simp add: store_code_def id)
       (simp add: demo_env_def demo_world_def insert_or_replace_def)
  have inj: "inj_on (code_id_of ?D) {''x = 1'', ''y = 2''}"
    by (simp add: id inj_on_def)
  have n: "''y = 2'' \<noteq> ''x = 1''" by simp
  have m1: "''x = 1'' \<in> {''x = 1'', ''y = 2''}" and m2: "''y = 2'' \<in> {''x = 1'', ''y = 2''}"
    by simp_all
  from store_code_content_addressed [OF h] obtain i where
    i: "code_id_of ?D ''x = 1'' = Inr i"
    and r: "store_code ?D (PStr ''x = 1'') ?w1
              = (Inr (PStr ''Code stored with ID: x = 1''), ?w1)"
    and e: "\<forall>S c2 w' v2 w2.
           inj_on (code_id_of ?D) S \<longrightarrow> ''x = 1'' \<in> S \<longrightarrow> c2 \<in> S \<longrightarrow> c2 \<noteq> ''x = 1'' \<longrightarrow>
           store_code ?D (PStr c2) w' = (Inr v2, w2) \<longrightarrow>
             code_id_of ?D c2 \<noteq> Inr i
             \<and> v2 \<noteq> PStr (''Code stored with ID: x = 1'')
             \<and> map_of (codes w2) i = map_of (codes w') i"
    by (elim exE conjE) (rule that, assumption+)
  from i have i': "i = ''x = 1''" by (simp add: id)
  from e [rule_format, OF inj m1 m2 n h2]
  have c: "code_id_of ?D ''y = 2'' \<noteq> Inr ''x = 1''"
    and d: "map_of (codes ?w2) ''x = 1'' = map_of (codes ?w1) ''x = 1''"
    unfolding i' by simp_all
  from d have d': "map_of [(''x = 1'', ''x = 1''), (''y = 2'', ''y = 2'')] ''x = 1''
       = map_of [(''x = 1'', ''x = 1'')] ''x = 1''"
    by simp
  show ?thesis
    by (intro conjI) (rule h, rule r, rule inj, rule h2, rule c, rule d')
qed

text \<open>
  C4. A tool call whose name is not in the registry ends the turn of the \<^verbatim>\<open>for\<close> loop
  normally: no exception leaves the dispatch, the current record gets exactly one
  more error entry, with the action \<^verbatim>\<open>tool_call_<name>\<close> and the message
  \<^verbatim>\<open>Tool '<name>' is not available.\<close>, nothing else of the state changes, and the loop
  goes on with the calls that remain.
\<close>

theorem unregistered_tool_recorded:
  assumes "available_functions (function_name tc) = None"
    and "history_dict st = h @ [cur]"
  shows "dispatch_tool_call env tc st
           = (Normal,
              st\<lparr>history_dict :=
                   h @ [cur\<lparr>errors := errors cur @ [not_available_error (function_name tc)]\<rparr>]\<rparr>)
     \<and> not_available_error (function_name tc)
         = \<lparr>action = ''tool_call_'' @ function_name tc,
            error = PStr (''Tool '' @ quote @ function_name tc @ quote @ '' is not available.''),
            traceback = Some ''No traceback available.''\<rparr>
     \<and> dispatch_tool_calls env (tc # rest) st
         = dispatch_tool_calls env rest
             (st\<lparr>history_dict :=
                  h @ [cur\<lparr>errors := errors cur
                                    @ [not_available_error (function_name tc)]\<rparr>]\<rparr>)"
proof -
  have "dispatch_tool_call env tc st
          = (Normal, add_error (not_available_error (function_name tc)) st)"
    using assms(1) by (simp add: dispatch_tool_call_def)
  then have d: "dispatch_tool_call env tc st
           = (Normal,
              st\<lparr>history_dict :=
                   h @ [cur\<lparr>errors := errors cur @ [not_available_error (function_name tc)]\<rparr>]\<rparr>)"
    by (simp only: add_error_snoc [OF assms(2)])
  then have c: "dispatch_tool_calls env (tc # rest) st
         = dispatch_tool_calls env rest
             (st\<lparr>history_dict :=
                  h @ [cur\<lparr>errors := errors cur
                                    @ [not_available_error (function_name tc)]\<rparr>]\<rparr>)"
    by simp
  have n: "not_available_error (function_name tc)
         = \<lparr>action = ''tool_call_'' @ function_name tc,
            error = PStr (''Tool '' @ quote @ function_name tc @ quote @ '' is not available.''),
            traceback = Some ''No traceback available.''\<rparr>"
    by (simp add: not_available_error_def)
  from d n c show ?thesis by (intro conjI)
qed

theorem unregistered_tool_recorded_witness:
  "available_functions (function_name \<lparr>call_id = ''call_1'', function_name = ''deploy'',
                                       arguments = ''{}''\<rparr>) = None
   \<and> history_dict demo_state = [] @ [new_iteration_record 1]
   \<and> fst (dispatch_tool_call (demo_env gateway_down)
            \<lparr>call_id = ''call_1'', function_name = ''deploy'', arguments = ''{}''\<rparr> demo_state)
       = Normal
   \<and> map (map action \<circ> errors)
        (history_dict (snd (dispatch_tool_call (demo_env gateway_down)
            \<lparr>call_id = ''call_1'', function_name = ''deploy'', arguments = ''{}''\<rparr>
            demo_state)))
       = [[''tool_call_deploy'']]"
  using unregistered_tool_recorded
          [of "\<lparr>call_id = ''call_1'', function_name = ''deploy'', arguments = ''{}''\<rparr>"
              demo_state "[]" "new_iteration_record 1" "demo_env gateway_down" "[]"]
  by (simp add: available_functions_def demo_state_def new_iteration_record_def
        not_available_error_def)

text \<open>
  C5. When the name of a tool call is in the registry and \<^verbatim>\<open>json.loads\<close> raises on its
  arguments, or the call of the function raises, the exception is caught in the turn of
  the \<^verbatim>\<open>for\<close> loop: the turn ends normally, also when the tool is \<^verbatim>\<open>task_completed\<close>;
  the current record gets exactly one more error entry, with the action
  \<^verbatim>\<open>tool_call_<name>\<close>, the message \<^verbatim>\<open>Error executing <name>: <exception>\<close> and the
  traceback; the world is as the call left it, nothing else changes, and the loop goes
  on with the calls that remain.
\<close>

theorem tool_failure_recorded:
  assumes "available_functions (function_name tc) = Some f"
    and "json_loads env (arguments tc) = Inl e \<and> w1 = world st
         \<or> (\<exists>function_args. json_loads env (arguments tc) = Inr function_args
               \<and> call_function env (function_name tc) f function_args (world st) = (Inl e, w1))"
    and "history_dict st = h @ [cur]"
  shows "dispatch_tool_call env tc st
           = (Normal,
              st\<lparr>world := w1,
                 history_dict :=
                   h @ [cur\<lparr>errors := errors cur
                                     @ [tool_error_entry env (function_name tc) e]\<rparr>]\<rparr>)
     \<and> tool_error_entry env (function_name tc) e
         = \<lparr>action = ''tool_call_'' @ function_name tc,
            error = PStr (''Error executing '' @ function_name tc @ '': '' @ exn_str e),
            traceback = Some (format_exc env e)\<rparr>
     \<and> dispatch_tool_calls env (tc # rest) st
         = dispatch_tool_calls env rest
             (st\<lparr>world := w1,
                 history_dict :=
                   h @ [cur\<lparr>errors := errors cur
                                     @ [tool_error_entry env (function_name tc) e]\<rparr>]\<rparr>)"
proof -
  from assms(2) have "try_tool_call env tc f st = (Raise e, st\<lparr>world := w1\<rparr>)"
    by (auto simp: try_tool_call_def)
  with assms(1) have "dispatch_tool_call env tc st
          = (Normal, add_error (tool_error_entry env (function_name tc) e) (st\<lparr>world := w1\<rparr>))"
    by (simp add: dispatch_tool_call_def)
  moreover have "history_dict (st\<lparr>world := w1\<rparr>) = h @ [cur]"
    using assms(3) by simp
  ultimately have d: "dispatch_tool_call env tc st
           = (Normal,
              st\<lparr>world := w1,
                 history_dict :=
                   h @ [cur\<lparr>errors := errors cur
                                     @ [tool_error_entry env (function_name tc) e]\<rparr>]\<rparr>)"
    by (simp add: add_error_snoc)
  then have c: "dispatch_tool_calls env (tc # rest) st
         = dispatch_tool_calls env rest
             (st\<lparr>world := w1,
                 history_dict :=
                   h @ [cur\<lparr>errors := errors cur
                                     @ [tool_error_entry env (function_name tc) e]\<rparr>]\<rparr>)"
    by simp
  have n: "tool_error_entry env (function_name tc) e
         = \<lparr>action = ''tool_call_'' @ function_name tc,
            error = PStr (''Error executing '' @ function_name tc @ '': '' @ exn_str e),
            traceback = Some (format_exc env e)\<rparr>"
    by (simp add: tool_error_entry_def)
  from d n c show ?thesis by (intro conjI)
qed

theorem tool_failure_recorded_witness:
  "available_functions (function_name demo_call_bad_json) = Some Store_code
   \<and> json_loads (demo_env gateway_down) (arguments demo_call_bad_json)
       = Inl (PyExn ''JSONDecodeError'' ''Expecting value'')
   \<and> history_dict demo_state = [] @ [new_iteration_record 1]
   \<and> fst (dispatch_tool_call (demo_env gateway_down) demo_call_bad_json demo_state) = Normal
   \<and> map (map action \<circ> errors)
        (history_dict (snd (dispatch_tool_call (demo_env gateway_down) demo_call_bad_json
                              demo_state)))
       = [[''tool_call_store_code'']]
   \<and> call_function (demo_env gateway_down) ''store_code'' Store_code
         (PDict [(''code_content'', PInt 7)]) (world demo_state)
       = (Inl (PyExn ''AttributeError''
                 (quote @ ''int'' @ quote @ '' object has no attribute '' @ quote @ ''encode''
                  @ quote)), demo_world)
   \<and> fst (dispatch_tool_call (demo_env gateway_down) demo_call_store_int demo_state) = Normal
   \<and> map (map action \<circ> errors)
        (history_dict (snd (dispatch_tool_call (demo_env gateway_down) demo_call_store_int
                              demo_state)))
       = [[''tool_call_store_code'']]"
proof -
  have a: "available_functions (function_name demo_call_bad_json) = Some Store_code"
    "available_functions (function_name demo_call_store_int) = Some Store_code"
    by (simp_all add: demo_call_bad_json_def demo_call_store_int_def available_functions_def)
  have j: "json_loads (demo_env gateway_down) (arguments demo_call_bad_json)
       = Inl (PyExn ''JSONDecodeError'' ''Expecting value'')"
    by (simp add: demo_env_def demo_json_loads_def demo_call_bad_json_def)
  have j2: "json_loads (demo_env gateway_down) (arguments demo_call_store_int)
       = Inr (PDict [(''code_content'', PInt 7)])"
    by (simp add: demo_env_def demo_json_loads_def demo_call_store_int_def)
  have c: "call_function (demo_env gateway_down) ''store_code'' Store_code
         (PDict [(''code_content'', PInt 7)]) (world demo_state)
       = (Inl (PyExn ''AttributeError''
                 (quote @ ''int'' @ quote @ '' object has no attribute '' @ quote @ ''encode''
                  @ quote)), demo_world)"
    by (simp add: call_function_def bind_args_def store_code_def demo_state_def quote_def)
  have n: "function_name demo_call_bad_json = ''store_code''"
    "function_name demo_call_store_int = ''store_code''"
    by (simp_all add: demo_call_bad_json_def demo_call_store_int_def)
  have h: "history_dict demo_state = [] @ [new_iteration_record 1]"
    by (simp add: demo_state_def)
  from tool_failure_recorded [OF a(1) _ h, of "demo_env gateway_down" _ "world demo_state" "[]"] j
  have r1: "fst (dispatch_tool_call (demo_env gateway_down) demo_call_bad_json demo_state) = Normal
     \<and> map (map action \<circ> errors)
        (history_dict (snd (dispatch_tool_call (demo_env gateway_down) demo_call_bad_json
                              demo_state)))
       = [[''tool_call_store_code'']]"
    by (simp add: n new_iteration_record_def tool_error_entry_def)
  from tool_failure_recorded [OF a(2) _ h, of "demo_env gateway_down" _ demo_world "[]"] j2 c
  have r2: "fst (dispatch_tool_call (demo_env gateway_down) demo_call_store_int demo_state) = Normal
     \<and> map (map action \<circ> errors)
        (history_dict (snd (dispatch_tool_call (demo_env gateway_down) demo_call_store_int
                              demo_state)))
       = [[''tool_call_store_code'']]"
    by (simp add: n new_iteration_record_def tool_error_entry_def)
  from a j h c r1 r2 show ?thesis by simp
qed

text \<open>
  C6. A first response whose list \<^verbatim>\<open>choices\<close> is empty carries no message, but
  \<^verbatim>\<open>response.choices[0]\<close> of line 436 raises on it before the test of the message: the
  pass records one error entry with the action \<^verbatim>\<open>main_loop\<close>, not \<^verbatim>\<open>llm_completion\<close>.
  (The second call of the gateway tests \<^verbatim>\<open>second_response.choices\<close> first, line 501.)
  The counter advances by one and nothing else of the pass runs; when the first choice
  is there and its message is \<^verbatim>\<open>None\<close>, the entry has the action
  \<^verbatim>\<open>llm_completion\<close>, as \<open>loop_pass_no_message\<close> shows.
\<close>

theorem empty_choices_recorded_as_main_loop:
  "loop_pass (demo_env gateway_empty_choices) 0 (run_start demo_world)
     = (Normal, 1,
        \<lparr>world = \<lparr>progress = progress_init\<lparr>iteration := 1\<rparr>, codes = [], os = (),
                   observed = [progress_init\<lparr>iteration := 1\<rparr>]\<rparr>,
         gateway_calls = 1,
         log_calls = [[\<lparr>index = 1, actions = [], llm_responses = [], tool_results = [],
                        errors = [\<lparr>action = ''main_loop'',
                                   error = PStr ''list index out of range'',
                                   traceback = Some
                                     ''Traceback (most recent call last): IndexError''\<rparr>]\<rparr>]],
         history_dict = [\<lparr>index = 1, actions = [], llm_responses = [], tool_results = [],
                           errors = [\<lparr>action = ''main_loop'',
                                      error = PStr ''list index out of range'',
                                      traceback = Some
                                        ''Traceback (most recent call last): IndexError''\<rparr>]\<rparr>],
         messages = [], output_local = []\<rparr>)"
  by (simp add: loop_pass_def pass_body_def call_completion_def Let_def st_defs
        end_of_pass_def log_to_file_def new_iteration_record_def set_progress_def
        demo_env_def gateway_empty_choices_def run_start_def demo_world_def upd_last_def)

text \<open>
  C7. A pass of the loop, whatever happens in it, appends one record to the history,
  numbered one more than the counter, and calls \<^verbatim>\<open>log_to_file\<close> once, with the history
  it ends with. The loop, started with an empty history and a budget of \<open>M\<close> passes,
  ends after \<open>max 0 M\<close> passes with as many records, or returns in pass \<open>n + 1\<close>, with
  \<open>n < M\<close>, and then the history has \<open>n + 1\<close> records; \<^verbatim>\<open>log_to_file\<close> was called once
  for each record. When a run ends, the records of its history are numbered
  1, 2, ..., n in order, the k-th call of \<^verbatim>\<open>log_to_file\<close> was given the first k records,
  and n is at most \<^verbatim>\<open>max_iterations\<close>, when that is not negative; when the model
  supports function calling and the instructions were read, the history and the calls
  of \<^verbatim>\<open>log_to_file\<close> are those of the loop with the budget \<^verbatim>\<open>max_iterations\<close>.
\<close>

theorem history_contiguous_and_persisted:
  "(\<exists>r. history_dict (snd (snd (loop_pass env i st))) = history_dict st @ [r]
         \<and> index r = i + 1)
   \<and> log_calls (snd (snd (loop_pass env i st)))
       = log_calls st @ [history_dict (snd (snd (loop_pass env i st)))]
   \<and> (\<exists>fl n s. main_loop env M 0 ((run_start w)\<lparr>messages := ms\<rparr>) = (fl, n, s)
         \<and> (fl = Normal \<and> n = max 0 M \<and> int (length (history_dict s)) = n
            \<or> fl = Return_output \<and> 0 \<le> n \<and> n < M
              \<and> int (length (history_dict s)) = n + 1)
         \<and> length (log_calls s) = length (history_dict s)
         \<and> map index (history_dict s) = map int [1..<Suc (length (history_dict s))]
         \<and> log_calls s
             = map (\<lambda>k. take (Suc k) (history_dict s)) [0..<length (history_dict s)])
   \<and> map index (history_dict (run_final env u w))
       = map int [1..<Suc (length (history_dict (run_final env u w)))]
   \<and> log_calls (run_final env u w)
       = map (\<lambda>k. take (Suc k) (history_dict (run_final env u w)))
           [0..<length (history_dict (run_final env u w))]
   \<and> length (log_calls (run_final env u w)) = length (history_dict (run_final env u w))
   \<and> (\<forall>k < length (log_calls (run_final env u w)).
        map index (log_calls (run_final env u w) ! k) = map int [1..<Suc (Suc k)])
   \<and> (0 \<le> max_iterations (progress w) \<longrightarrow>
        int (length (history_dict (run_final env u w))) \<le> max_iterations (progress w))
   \<and> (supports_function_calling env \<longrightarrow> read_instructions env = Inr instructions \<longrightarrow>
        history_dict (run_final env u w)
          = history_dict (snd (snd (main_loop env (max_iterations (progress w)) 0
              ((run_start w)\<lparr>messages :=
                 [Role_content ''system'' instructions, Role_content ''user'' u,
                  Role_content ''system'' (''History:'' @ nl @ initial_history_dump)]\<rparr>))))
        \<and> log_calls (run_final env u w)
          = log_calls (snd (snd (main_loop env (max_iterations (progress w)) 0
              ((run_start w)\<lparr>messages :=
                 [Role_content ''system'' instructions, Role_content ''user'' u,
                  Role_content ''system'' (''History:'' @ nl @ initial_history_dump)]\<rparr>)))))"
proof -
  obtain fl0 i0 st0 where p: "loop_pass env i st = (fl0, i0, st0)"
    by (cases "loop_pass env i st") auto
  from loop_pass_result [OF p]
  have a: "\<exists>r. history_dict (snd (snd (loop_pass env i st))) = history_dict st @ [r]
         \<and> index r = i + 1"
    and b: "log_calls (snd (snd (loop_pass env i st)))
       = log_calls st @ [history_dict (snd (snd (loop_pass env i st)))]"
    by (simp_all add: p)
  let ?s0 = "(run_start w)\<lparr>messages := ms\<rparr>"
  obtain fl n s where m: "main_loop env M 0 ?s0 = (fl, n, s)"
    by (cases "main_loop env M 0 ?s0") auto
  have z: "int (length (history_dict ?s0)) = 0" "length (log_calls ?s0) = 0"
    "length (history_dict ?s0) = 0"
    by (simp_all add: run_start_def)
  from main_loop_count [OF z(1) m]
  have c1: "fl = Normal \<and> n = max 0 M \<and> int (length (history_dict s)) = n
            \<or> fl = Return_output \<and> 0 \<le> n \<and> n < M
              \<and> int (length (history_dict s)) = n + 1"
    and c2: "length (log_calls s) = length (history_dict s)"
    unfolding z by simp_all
  from main_loop_hist [OF run_start_hist _ m] have hs: "hist_inv s"
    by (simp add: run_start_def)
  then have c3: "map index (history_dict s) = map int [1..<Suc (length (history_dict s))]"
    and c4: "log_calls s
             = map (\<lambda>k. take (Suc k) (history_dict s)) [0..<length (history_dict s)]"
    unfolding hist_inv_def by simp_all
  have c: "\<exists>fl n s. main_loop env M 0 ?s0 = (fl, n, s)
         \<and> (fl = Normal \<and> n = max 0 M \<and> int (length (history_dict s)) = n
            \<or> fl = Return_output \<and> 0 \<le> n \<and> n < M
              \<and> int (length (history_dict s)) = n + 1)
         \<and> length (log_calls s) = length (history_dict s)
         \<and> map index (history_dict s) = map int [1..<Suc (length (history_dict s))]
         \<and> log_calls s
             = map (\<lambda>k. take (Suc k) (history_dict s)) [0..<length (history_dict s)]"
    by (intro exI conjI) (rule m, rule c1, rule c2, rule c3, rule c4)
  from run_main_loop_hist [of env u w]
  have h: "hist_inv (run_final env u w)"
    and l: "int (length (history_dict (run_final env u w))) \<le> max 0 (max_iterations (progress w))"
    by simp_all
  from h have d3: "length (log_calls (run_final env u w)) = length (history_dict (run_final env u w))"
    by (simp add: hist_inv_def)
  from l have d5: "0 \<le> max_iterations (progress w) \<longrightarrow>
      int (length (history_dict (run_final env u w))) \<le> max_iterations (progress w)"
    by (auto simp: max_def split: if_splits)
  from h have d4: "\<forall>k < length (log_calls (run_final env u w)).
        map index (log_calls (run_final env u w) ! k) = map int [1..<Suc (Suc k)]"
    by (simp add: hist_inv_snapshot)
  from h have d1: "map index (history_dict (run_final env u w))
       = map int [1..<Suc (length (history_dict (run_final env u w)))]"
    and d2: "log_calls (run_final env u w)
       = map (\<lambda>k. take (Suc k) (history_dict (run_final env u w)))
           [0..<length (history_dict (run_final env u w))]"
    unfolding hist_inv_def by simp_all
  show ?thesis
    apply (intro conjI)
    apply (rule a)
    apply (rule b)
    apply (rule c)
    apply (rule d1)
    apply (rule d2)
    apply (rule d3)
    apply (rule d4)
    apply (rule d5)
    apply (intro impI)
    apply (erule (1) run_final_history)
    done
qed

theorem history_contiguous_and_persisted_witness:
  "0 \<le> max_iterations (progress demo_world_two)
   \<and> supports_function_calling (demo_env gateway_down)
   \<and> read_instructions (demo_env gateway_down) = Inr ''Build the application.''
   \<and> map index (history_dict (run_final (demo_env gateway_down) ''a to-do list''
                                  demo_world_two)) = [1, 2]
   \<and> map (map index) (log_calls (run_final (demo_env gateway_down) ''a to-do list''
                                     demo_world_two)) = [[1], [1, 2]]"
proof -
  let ?D = "demo_env gateway_down"
  let ?u = "''a to-do list''"
  let ?ms = "[Role_content ''system'' ''Build the application.'', Role_content ''user'' ?u,
              Role_content ''system'' (''History:'' @ nl @ initial_history_dump)]"
  let ?s0 = "(run_start demo_world_two)\<lparr>messages := ?ms\<rparr>"
  let ?F = "run_final ?D ?u demo_world_two"
  have h0: "0 \<le> max_iterations (progress demo_world_two)"
    and mx: "max_iterations (progress demo_world_two) = 2"
    by (simp_all add: demo_world_two_def)
  have h1: "supports_function_calling ?D"
    and h2: "read_instructions ?D = Inr ''Build the application.''"
    by (simp_all add: demo_env_def)
  have gw: "completion ?D k xs True = Inl (PyExn ''APIConnectionError'' ''Connection error.'')"
    for k xs
    by (simp add: demo_env_def gateway_down_def)
  define s0 where "s0 = ?s0"
  have e0: "history_dict s0 = []" by (simp add: s0_def run_start_def)
  from loop_pass_gateway_raises [where env = ?D and st = s0 and k = 0, OF gw] obtain s1 where
    p1: "loop_pass ?D 0 s0 = (Normal, 1, s1)" and l1: "length (history_dict s1) = 1"
    by (auto simp: e0)
  from loop_pass_gateway_raises [where env = ?D and st = s1 and k = 1, OF gw] obtain s2 where
    p2: "loop_pass ?D 1 s1 = (Normal, 2, s2)" and l2: "length (history_dict s2) = 2"
    using l1 by auto
  have ml: "main_loop ?D 2 0 s0 = (Normal, 2, s2)"
    by (simp add: main_loop.simps [of ?D 2 0 s0] p1 main_loop.simps [of ?D 2 1 s1] p2
          main_loop.simps [of ?D 2 2 s2])
  note t = history_contiguous_and_persisted
             [where env = ?D and i = 0 and st = s0 and M = 2 and w = demo_world_two
                and ms = ?ms and u = ?u and instructions = "''Build the application.''"]
  from t h1 h2 have "history_dict ?F
      = history_dict (snd (snd (main_loop ?D (max_iterations (progress demo_world_two)) 0 ?s0)))"
    by (elim conjE) (erule impE, assumption, erule impE, assumption, erule conjE, assumption)
  then have e: "history_dict ?F = history_dict s2"
    unfolding mx s0_def [symmetric] ml by simp
  from t have i: "map index (history_dict ?F) = map int [1..<Suc (length (history_dict ?F))]"
    and l: "log_calls ?F
       = map (\<lambda>k. take (Suc k) (history_dict ?F)) [0..<length (history_dict ?F)]"
    by simp_all
  from e l2 have n: "length (history_dict ?F) = 2" by simp
  from i have i': "map index (history_dict ?F) = [1, 2]"
    unfolding n by (simp add: upt_rec)
  from l have "map (map index) (log_calls ?F)
      = [take 1 (map index (history_dict ?F)), take 2 (map index (history_dict ?F))]"
    unfolding n by (simp add: upt_rec take_map numeral_2_eq_2)
  then have l': "map (map index) (log_calls ?F) = [[1], [1, 2]]"
    unfolding i' by simp
  show ?thesis
    by (intro conjI) (rule h0, rule h1, rule h2, rule i', rule l')
qed

text \<open>
  C8. When the model does not support function calling, the run returns at once with
  \<^verbatim>\<open>status\<close> \<^verbatim>\<open>"error"\<close> and \<^verbatim>\<open>completed\<close> true: its history is empty, the gateway and
  \<^verbatim>\<open>log_to_file\<close> were not called, and the table and the files are as before. When the
  model supports it and \<^verbatim>\<open>status\<close> is not \<^verbatim>\<open>"error"\<close> at the start, \<^verbatim>\<open>status\<close> is never
  \<^verbatim>\<open>"error"\<close>: not at the end of the run and in no value written during the run.
\<close>

theorem precheck_failure_only_error:
  "(\<not> supports_function_calling env \<longrightarrow>
      fst (run_main_loop env u w) = Inr ''Model does not support function calling.''
      \<and> history_dict (run_final env u w) = []
      \<and> gateway_calls (run_final env u w) = 0
      \<and> log_calls (run_final env u w) = []
      \<and> messages (run_final env u w) = []
      \<and> status (progress (world (run_final env u w))) = ''error''
      \<and> completed (progress (world (run_final env u w)))
      \<and> codes (world (run_final env u w)) = codes w
      \<and> os (world (run_final env u w)) = os w)
   \<and> (supports_function_calling env \<longrightarrow> status (progress w) \<noteq> ''error'' \<longrightarrow>
        status (progress (world (run_final env u w))) \<noteq> ''error''
        \<and> (\<exists>ps. observed (world (run_final env u w)) = observed w @ ps
                 \<and> list_all (\<lambda>p::progress. status p \<noteq> ''error'') ps))"
proof -
  have a: ?thesis if "\<not> supports_function_calling env"
    using that
    by (simp add: run_final_def run_main_loop_def Let_def write_progress_def set_progress_def)
  have b: ?thesis if s: "supports_function_calling env"
  proof (cases "status (progress w) = ''error''")
    case True
    with s show ?thesis by simp
  next
    case False
    have "run_keeps (\<lambda>p::progress. status p \<noteq> ''error'') w (world (run_final env u w))"
    proof (rule run_main_loop_keeps [of "\<lambda>p::progress. status p \<noteq> ''error''", OF _ _ s])
      show "status q \<noteq> ''error''" if "status p \<noteq> ''error''" "prog_keeps p q"
        for p q :: progress
        using that by (auto simp: prog_keeps_def)
      show "status (progress w) \<noteq> ''error''" by (rule False)
    qed simp
    with s show ?thesis by (simp add: run_keeps_def)
  qed
  from a b show ?thesis by blast
qed

theorem precheck_failure_only_error_witness:
  "\<not> supports_function_calling ((demo_env gateway_down)\<lparr>supports_function_calling := False\<rparr>)
   \<and> status (progress (world (run_final
        ((demo_env gateway_down)\<lparr>supports_function_calling := False\<rparr>) ''a to-do list''
        demo_world))) = ''error''
   \<and> history_dict (run_final
        ((demo_env gateway_down)\<lparr>supports_function_calling := False\<rparr>) ''a to-do list''
        demo_world) = []
   \<and> supports_function_calling (demo_env gateway_down)
   \<and> status (progress demo_world) \<noteq> ''error''
   \<and> status (progress (world (run_final (demo_env gateway_down) ''a to-do list'' demo_world)))
       \<noteq> ''error''"
  using precheck_failure_only_error
          [of "(demo_env gateway_down)\<lparr>supports_function_calling := False\<rparr>"
              "''a to-do list''" demo_world]
        precheck_failure_only_error [of "demo_env gateway_down" "''a to-do list''" demo_world]
  by (simp add: demo_env_def demo_world_def progress_init_def)

text \<open>
  C9. \<^verbatim>\<open>log_to_file\<close> returns normally for every history and every state, whether the
  write succeeded or raised; it changes the state of the operating system only; and
  neither the end of a pass (lines 525-527) nor a whole pass of the loop ends with an
  exception, whatever the write does.
\<close>

theorem log_to_file_swallows_failure:
  "fst (log_to_file env h st) = None
   \<and> snd (log_to_file env h st)
       = st\<lparr>world := (world st)\<lparr>os := snd (dump_log env h (os (world st)))\<rparr>,
             log_calls := log_calls st @ [h]\<rparr>
   \<and> fst (end_of_pass env i st) = Normal
   \<and> (\<forall>e. fst (loop_pass env i st) \<noteq> Raise e)"
proof -
  obtain r st1 where l: "log_to_file env h st = (r, st1)"
    by (cases "log_to_file env h st")
  from log_to_file_result [OF l] l have a: "fst (log_to_file env h st) = None" by simp
  have b: "snd (log_to_file env h st)
       = st\<lparr>world := (world st)\<lparr>os := snd (dump_log env h (os (world st)))\<rparr>,
             log_calls := log_calls st @ [h]\<rparr>"
    by (simp add: log_to_file_def Let_def split: prod.splits option.splits)
  obtain fl i1 st2 where e: "end_of_pass env i st = (fl, i1, st2)"
    by (cases "end_of_pass env i st") auto
  from end_of_pass_result [OF e] e have c: "fst (end_of_pass env i st) = Normal" by simp
  obtain fl' i' st3 where p: "loop_pass env i st = (fl', i', st3)"
    by (cases "loop_pass env i st") auto
  from loop_pass_result [OF p] p have d: "\<forall>e. fst (loop_pass env i st) \<noteq> Raise e" by auto
  from a b c d show ?thesis by blast
qed

theorem log_to_file_swallows_failure_witness:
  "fst (dump_log (demo_env gateway_down) [] (os (world demo_state)))
     = Some (PyExn ''OSError'' ''No space left on device'')
   \<and> fst (log_to_file (demo_env gateway_down) [] demo_state) = None
   \<and> log_calls (snd (log_to_file (demo_env gateway_down) [] demo_state)) = [[]]"
  using log_to_file_swallows_failure [of "demo_env gateway_down" "[]" demo_state 0]
  by (simp add: demo_env_def demo_state_def)

text \<open>
  C10. A tool call whose dispatch fails (its name is not in the registry, or
  \<^verbatim>\<open>json.loads\<close> raises on its arguments, or the call of the function raises) leaves
  \<^verbatim>\<open>messages\<close> unchanged; one that succeeds appends one tool message, with its call id.
  So the messages appended by the dispatch of a batch are the tool messages of the
  calls that succeeded, in order, and the next call of the gateway is sent nothing
  about a call that failed.
\<close>

theorem failed_calls_leave_no_tool_message:
  "(call_response env tc (world st) = None \<longleftrightarrow>
      available_functions (function_name tc) = None
      \<or> (\<exists>e. json_loads env (arguments tc) = Inl e)
      \<or> (\<exists>f a e. available_functions (function_name tc) = Some f
             \<and> json_loads env (arguments tc) = Inr a
             \<and> fst (call_function env (function_name tc) f a (world st)) = Inl e))
   \<and> (call_response env tc (world st) = None \<longrightarrow>
        messages (snd (dispatch_tool_call env tc st)) = messages st)
   \<and> (\<forall>r. call_response env tc (world st) = Some r \<longrightarrow>
        messages (snd (dispatch_tool_call env tc st))
          = messages st @ [Tool_message (call_id tc) (function_name tc) r])
   \<and> messages (snd (dispatch_tool_calls env tcs st))
       = messages st @ succeeded_messages env tcs st
   \<and> list_all (\<lambda>m. role m = ''tool'' \<and> tool_call_id m \<in> call_id ` set tcs)
        (succeeded_messages env tcs st)"
proof -
  have a: "call_response env tc (world st) = None \<longleftrightarrow>
      available_functions (function_name tc) = None
      \<or> (\<exists>e. json_loads env (arguments tc) = Inl e)
      \<or> (\<exists>f a e. available_functions (function_name tc) = Some f
             \<and> json_loads env (arguments tc) = Inr a
             \<and> fst (call_function env (function_name tc) f a (world st)) = Inl e)"
    by (auto simp: call_response_def split: option.splits sum.splits)
  have b: "call_response env tc (world st) = None \<longrightarrow>
        messages (snd (dispatch_tool_call env tc st)) = messages st"
    by (simp add: dispatch_tool_call_messages)
  have c: "\<forall>r. call_response env tc (world st) = Some r \<longrightarrow>
        messages (snd (dispatch_tool_call env tc st))
          = messages st @ [Tool_message (call_id tc) (function_name tc) r]"
    by (simp add: dispatch_tool_call_messages)
  from a b c dispatch_tool_calls_messages [of env tcs st] succeeded_messages_tool [of tcs env st]
  show ?thesis by blast
qed

theorem failed_calls_leave_no_tool_message_witness:
  "call_response (demo_env gateway_down) demo_call_deploy (world demo_state) = None
   \<and> messages (snd (dispatch_tool_call (demo_env gateway_down) demo_call_deploy demo_state))
       = messages demo_state
   \<and> call_response (demo_env gateway_down) demo_call_store (world demo_state)
       = Some (PStr ''Code stored with ID: x = 1'')
   \<and> messages (snd (dispatch_tool_call (demo_env gateway_down) demo_call_store demo_state))
       = [Tool_message ''call_4'' ''store_code'' (PStr ''Code stored with ID: x = 1'')]"
proof -
  have a: "call_response (demo_env gateway_down) demo_call_deploy (world demo_state) = None"
    by (simp add: call_response_def demo_call_deploy_def available_functions_def)
  have b: "call_response (demo_env gateway_down) demo_call_store (world demo_state)
       = Some (PStr ''Code stored with ID: x = 1'')"
    by (simp add: call_response_def demo_call_store_def available_functions_def demo_env_def
          demo_json_loads_def call_function_def bind_args_def store_code_def code_id_of_def
          Let_def)
  from failed_calls_leave_no_tool_message
         [of "demo_env gateway_down" demo_call_deploy demo_state "[]"] a
  have c: "messages (snd (dispatch_tool_call (demo_env gateway_down) demo_call_deploy demo_state))
       = messages demo_state" by blast
  from failed_calls_leave_no_tool_message
         [of "demo_env gateway_down" demo_call_store demo_state "[]"] b
  have d: "messages (snd (dispatch_tool_call (demo_env gateway_down) demo_call_store demo_state))
       = [Tool_message ''call_4'' ''store_code'' (PStr ''Code stored with ID: x = 1'')]"
    by (simp add: demo_state_def demo_call_store_def)
  from a b c d show ?thesis by blast
qed

end
